theory Spec2Isabelle
  imports Complex_Main "HOL-Library.Signed_Division"
begin

section \<open>Tensors, errors and the operations of the tensor library\<close>

text \<open>
  The models of \<^verbatim>\<open>fairseq/models/vqvae_lm.py\<close> and \<^verbatim>\<open>fairseq/models/conv_encoder.py\<close>.

  A tensor is a nested list in row-major order: a vector is a list, a matrix a list
  of rows, a three-axis tensor a list of matrices. Floating-point elements are
  idealised as real numbers: rounding is not modelled, and a computation that would
  produce an infinity or a NaN is marked where it can arise (\<open>None\<close> for a returned
  scalar, the error \<open>NonFinite\<close> for a buffer). Integer tensors hold 64-bit values;
  they are modelled as \<open>int\<close>, and \<open>/\<close> on them is the truncating division that the
  tensor library of the repository's time performs (\<open>sdiv\<close>).

  Every exception the code can raise is a value \<open>Inl e\<close>.
\<close>

datatype error =
  RuntimeError | IndexError | TypeError | AttributeError | ZeroDivisionError | NonFinite

type_synonym vec = "real list"
type_synonym mat = "real list list"
type_synonym tensor3 = "real list list list"

definition ebind :: "error + 'a \<Rightarrow> ('a \<Rightarrow> error + 'b) \<Rightarrow> error + 'b" where
  "ebind m f = (case m of Inl e \<Rightarrow> Inl e | Inr x \<Rightarrow> f x)"

fun sequence :: "(error + 'a) list \<Rightarrow> error + 'a list" where
  "sequence [] = Inr []"
| "sequence (x # xs) =
     (case x of Inl e \<Rightarrow> Inl e
      | Inr v \<Rightarrow> (case sequence xs of Inl e \<Rightarrow> Inl e | Inr vs \<Rightarrow> Inr (v # vs)))"

text \<open>
  Broadcasting of a binary operation along one axis: the sizes agree, or one of them
  is 1 and its only entry is repeated; anything else raises.
\<close>

definition bcast :: "('a \<Rightarrow> 'b \<Rightarrow> error + 'c) \<Rightarrow> 'a list \<Rightarrow> 'b list \<Rightarrow> error + 'c list" where
  "bcast f xs ys =
     (if length xs = length ys then sequence (map2 f xs ys)
      else if length ys = 1 then sequence (map (\<lambda>x. f x (hd ys)) xs)
      else if length xs = 1 then sequence (map (f (hd xs)) ys)
      else Inl RuntimeError)"

section \<open>compute_conv_mask\<close>

text \<open>
  \<^verbatim>\<open>
  def compute_conv_mask(lengths, stride):
      valid_lengths = (lengths - 1) / stride + 1
      max_length = torch.max(valid_lengths).item()
      mask = torch.arange(max_length, device=lengths.device).type_as(lengths).expand(len(lengths), max_length)
      mask = mask < valid_lengths.unsqueeze(1)
      return valid_lengths, mask  # mask -> batch x T'
  \<close>
  The division raises on a zero stride, \<^verbatim>\<open>torch.max\<close> on an empty tensor and
  \<^verbatim>\<open>torch.arange\<close> on a negative bound.
\<close>

definition compute_conv_mask :: "int list \<Rightarrow> int \<Rightarrow> error + (int list \<times> bool list list)" where
  "compute_conv_mask lengths stride =
     (if stride = 0 \<and> lengths \<noteq> [] then Inl ZeroDivisionError
      else let valid_lengths = map (\<lambda>l. (l - 1) sdiv stride + 1) lengths in
        if valid_lengths = [] then Inl RuntimeError
        else let max_length = Max (set valid_lengths) in
          if max_length < 0 then Inl RuntimeError
          else Inr (valid_lengths,
                    map (\<lambda>v. map (\<lambda>t. int t < v) [0..<nat max_length]) valid_lengths))"

text \<open>
  \<^verbatim>\<open>conv_encoder.py\<close> defines the function a second time, with the same text.
\<close>

definition conv_encoder_compute_conv_mask ::
  "int list \<Rightarrow> int \<Rightarrow> error + (int list \<times> bool list list)" where
  "conv_encoder_compute_conv_mask lengths stride =
     (if stride = 0 \<and> lengths \<noteq> [] then Inl ZeroDivisionError
      else let valid_lengths = map (\<lambda>l. (l - 1) sdiv stride + 1) lengths in
        if valid_lengths = [] then Inl RuntimeError
        else let max_length = Max (set valid_lengths) in
          if max_length < 0 then Inl RuntimeError
          else Inr (valid_lengths,
                    map (\<lambda>v. map (\<lambda>t. int t < v) [0..<nat max_length]) valid_lengths))"

section \<open>ConvEncoder\<close>

text \<open>
  \<^verbatim>\<open>
  class ConvEncoder(nn.Module):
      def __init__(self, input_channel, kernels, strides, latent_dim):
          self.strides = strides
          self.conv_blocks = nn.ModuleList([])
          self.conv_blocks.extend([nn.Conv1d(input_channel, input_channel, kernel_size=k, padding=k//2, stride=s)
                                   for k, s in zip(kernels, strides)])
          self.quant_conv = nn.Conv1d(input_channel, latent_dim, 1)
  \<close>
  A convolution layer belongs to the tensor library. It is a parameter of the model:
  any function from the activations (batch x C x T) to new activations, or to an
  error (a wrong number of channels, an input shorter than the kernel).
\<close>

type_synonym conv1d = "tensor3 \<Rightarrow> error + tensor3"

record ConvEncoder =
  strides :: "int list"
  conv_blocks :: "conv1d list"
  quant_conv :: conv1d

definition F_relu :: "tensor3 \<Rightarrow> tensor3" where
  "F_relu x = map (map (map (max 0))) x"

text \<open>
  \<^verbatim>\<open>input * new_mask.type_as(input).unsqueeze(1)\<close>: the mask (batch x T') becomes a
  tensor of zeros and ones with a channel axis of size 1, and the product broadcasts
  along each axis. Along the channel axis the mask is always repeated; along the batch
  and the time axis the sizes must agree unless one of them is 1.
\<close>

definition mul_time :: "real list \<Rightarrow> bool list \<Rightarrow> error + real list" where
  "mul_time row mrow = bcast (\<lambda>v b. Inr (v * of_bool b)) row mrow"

definition mul_chan :: "real list list \<Rightarrow> bool list \<Rightarrow> error + real list list" where
  "mul_chan chans mrow = sequence (map (\<lambda>row. mul_time row mrow) chans)"

definition mul_mask :: "tensor3 \<Rightarrow> bool list list \<Rightarrow> error + tensor3" where
  "mul_mask x m = bcast mul_chan x m"

text \<open>\<^verbatim>\<open>output.permute(2, 0, 1)\<close>: batch x C' x T' becomes T' x batch x C'.\<close>

definition permute_201 :: "tensor3 \<Rightarrow> tensor3" where
  "permute_201 x =
     (let T = (if x = [] \<or> hd x = [] then 0 else length (hd (hd x)))
      in map (\<lambda>t. map (\<lambda>chans. map (\<lambda>row. row ! t) chans) x) [0..<T])"

text \<open>
  \<^verbatim>\<open>
  def forward(self, input, lengths):
      # input: batch x C x T
      new_mask = None
      for ii, (conv_layer, s) in enumerate(zip(self.conv_blocks, self.strides)):
          input = F.relu(conv_layer(input))
          lengths, new_mask = compute_conv_mask(lengths, s)
          input = input * new_mask.type_as(input).unsqueeze(1)
      output = self.quant_conv(input)
      # output: batch x C' x T' -> T' x batch x C'
      # new_mask: batch x T'
      return output.permute(2, 0, 1), new_mask
  \<close>
  \<open>conv_step\<close> is the body of the loop on the variables \<open>input\<close>, \<open>lengths\<close>
  and \<open>new_mask\<close>; \<open>conv_loop\<close> runs it over the zipped layers and strides.
\<close>

type_synonym conv_state = "tensor3 \<times> int list \<times> bool list list option"

definition conv_step :: "conv1d \<times> int \<Rightarrow> conv_state \<Rightarrow> error + conv_state" where
  "conv_step layer st =
     (case (layer, st) of ((conv_layer, s), (input, lengths, new_mask)) \<Rightarrow>
        ebind (conv_layer input) (\<lambda>y.
        ebind (compute_conv_mask lengths s) (\<lambda>(lengths', new_mask').
        ebind (mul_mask (F_relu y) new_mask') (\<lambda>input'.
        Inr (input', lengths', Some new_mask')))))"

fun conv_loop :: "(conv1d \<times> int) list \<Rightarrow> conv_state \<Rightarrow> error + conv_state" where
  "conv_loop [] st = Inr st"
| "conv_loop (layer # rest) st = ebind (conv_step layer st) (conv_loop rest)"

definition ConvEncoder_forward ::
  "ConvEncoder \<Rightarrow> tensor3 \<Rightarrow> int list \<Rightarrow> error + (tensor3 \<times> bool list list option)" where
  "ConvEncoder_forward self input lengths =
     ebind (conv_loop (zip (conv_blocks self) (strides self)) (input, lengths, None))
       (\<lambda>(input', lengths', new_mask).
     ebind (quant_conv self input') (\<lambda>output.
     Inr (permute_201 output, new_mask)))"

text \<open>The class of the same name in \<^verbatim>\<open>conv_encoder.py\<close>, on its own \<open>compute_conv_mask\<close>
  (its variable \<^verbatim>\<open>length\<close> is \<open>len\<close> here).\<close>

definition conv_encoder_conv_step :: "conv1d \<times> int \<Rightarrow> conv_state \<Rightarrow> error + conv_state" where
  "conv_encoder_conv_step layer st =
     (case (layer, st) of ((conv_layer, s), (input, len, new_mask)) \<Rightarrow>
        ebind (conv_layer input) (\<lambda>y.
        ebind (conv_encoder_compute_conv_mask len s) (\<lambda>(len', new_mask').
        ebind (mul_mask (F_relu y) new_mask') (\<lambda>input'.
        Inr (input', len', Some new_mask')))))"

fun conv_encoder_conv_loop :: "(conv1d \<times> int) list \<Rightarrow> conv_state \<Rightarrow> error + conv_state" where
  "conv_encoder_conv_loop [] st = Inr st"
| "conv_encoder_conv_loop (layer # rest) st =
     ebind (conv_encoder_conv_step layer st) (conv_encoder_conv_loop rest)"

definition conv_encoder_ConvEncoder_forward ::
  "ConvEncoder \<Rightarrow> tensor3 \<Rightarrow> int list \<Rightarrow> error + (tensor3 \<times> bool list list option)" where
  "conv_encoder_ConvEncoder_forward self input len =
     ebind (conv_encoder_conv_loop (zip (conv_blocks self) (strides self)) (input, len, None))
       (\<lambda>(input', len', new_mask).
     ebind (quant_conv self input') (\<lambda>output.
     Inr (permute_201 output, new_mask)))"

text \<open>
  A convolution layer for the examples: kernel size 1, the identity as weight, no
  bias, stride \<open>s\<close>. It keeps every \<open>s\<close>-th time step, \<open>(T - 1) div s + 1\<close> of them.
\<close>

definition pointwise_conv :: "nat \<Rightarrow> conv1d" where
  "pointwise_conv s x =
     (if s = 0 \<or> (\<exists>chans \<in> set x. \<exists>row \<in> set chans. row = []) then Inl RuntimeError
      else Inr (map (map (\<lambda>row. map (\<lambda>t. row ! (t * s)) [0..<(length row - 1) div s + 1])) x))"

section \<open>Quantize\<close>

text \<open>
  What the tensor library and the process environment decide: which index
  \<^verbatim>\<open>Tensor.max\<close> returns for a row (any index of a largest entry; which one among
  equal entries is not fixed), the number of CUDA devices, whether the default
  process group exists, and what the other processes contribute to the two
  \<^verbatim>\<open>all_reduce\<close> calls (a sum over all processes).
\<close>

record torch_env =
  max_index :: "real list \<Rightarrow> nat"
  cuda_device_count :: nat
  distributed_initialized :: bool
  peer_cluster_sum :: "vec list"
  peer_embed_sum :: "mat list"

definition max_index_ok :: "(real list \<Rightarrow> nat) \<Rightarrow> bool" where
  "max_index_ok f \<longleftrightarrow>
     (\<forall>row. row \<noteq> [] \<longrightarrow> f row < length row \<and> (\<forall>j < length row. row ! j \<le> row ! f row))"

fun first_max_index :: "real list \<Rightarrow> nat" where
  "first_max_index [] = 0"
| "first_max_index [x] = 0"
| "first_max_index (x # y # ys) =
     (let i = first_max_index (y # ys) in if (y # ys) ! i \<le> x then 0 else Suc i)"

text \<open>
  \<^verbatim>\<open>
  class Quantize(nn.Module):
      def __init__(self, dim, n_embed, decay=0.99, eps=1e-5):
          self.dim = dim
          self.n_embed = n_embed
          self.decay = decay
          self.eps = eps
          embed = torch.randn(dim, n_embed)
          self.register_buffer('embed', embed)
          self.register_buffer('cluster_size', torch.zeros(n_embed))
          self.register_buffer('embed_avg', embed.clone())
  \<close>
  The random sample is an argument of the model. A new module is in training mode.
\<close>

record Quantize =
  dim :: nat
  n_embed :: nat
  decay :: real
  eps :: real
  embed :: mat
  cluster_size :: vec
  embed_avg :: mat
  training :: bool

definition Quantize_init :: "nat \<Rightarrow> nat \<Rightarrow> real \<Rightarrow> real \<Rightarrow> mat \<Rightarrow> Quantize" where
  "Quantize_init d k dec e randn =
     \<lparr>dim = d, n_embed = k, decay = dec, eps = e, embed = randn,
      cluster_size = replicate k 0, embed_avg = randn, training = True\<rparr>"

text \<open>The shapes \<open>__init__\<close> gives the buffers: dim x n_embed, n_embed, dim x n_embed.\<close>

definition buffers_ok :: "Quantize \<Rightarrow> bool" where
  "buffers_ok self \<longleftrightarrow>
     length (embed self) = dim self \<and> (\<forall>row \<in> set (embed self). length row = n_embed self)
   \<and> length (cluster_size self) = n_embed self
   \<and> length (embed_avg self) = dim self \<and> (\<forall>row \<in> set (embed_avg self). length row = n_embed self)"

text \<open>A nested list is a tensor when it is rectangular.\<close>

definition is_tensor2 :: "'a list list \<Rightarrow> bool" where
  "is_tensor2 m \<longleftrightarrow> (\<forall>row \<in> set m. length row = length (hd m))"

definition is_tensor3 :: "'a list list list \<Rightarrow> bool" where
  "is_tensor3 x \<longleftrightarrow> is_tensor2 x \<and> is_tensor2 (concat x)"

definition column :: "'a list list \<Rightarrow> nat \<Rightarrow> 'a list" where
  "column m k = map (\<lambda>row. row ! k) m"

function chunks :: "nat \<Rightarrow> 'a list \<Rightarrow> 'a list list" where
  "chunks n xs = (if n = 0 \<or> xs = [] then [] else take n xs # chunks n (drop n xs))"
  by pat_completeness auto
termination
  by (relation "measure (\<lambda>(n, xs). length xs)") auto

declare chunks.simps [simp del]

text \<open>\<^verbatim>\<open>x.reshape(-1, d)\<close> on the elements of \<open>x\<close> in row-major order.\<close>

definition reshape_rows :: "nat \<Rightarrow> 'a list \<Rightarrow> error + 'a list list" where
  "reshape_rows d flat =
     (if d = 0 \<or> length flat mod d \<noteq> 0 then Inl RuntimeError else Inr (chunks d flat))"

text \<open>\<^verbatim>\<open>x.view(T, B)\<close> on a vector \<open>x\<close>.\<close>

definition view_2d :: "nat \<Rightarrow> nat \<Rightarrow> 'a list \<Rightarrow> error + 'a list list" where
  "view_2d T B xs =
     (if length xs \<noteq> T * B then Inl RuntimeError
      else Inr (if B = 0 then replicate T [] else chunks B xs))"

text \<open>
  \<^verbatim>\<open>
  dist = (
      flatten.pow(2).sum(1, keepdim=True)  # S x 1
      - 2 * flatten @ self.embed   # S x C @ C x S
      + self.embed.pow(2).sum(0, keepdim=True)  # 1 x S
  )
  \<close>
\<close>

definition dist_row :: "mat \<Rightarrow> nat \<Rightarrow> vec \<Rightarrow> vec" where
  "dist_row emb K x =
     map (\<lambda>k. sum_list (map (\<lambda>v. v\<^sup>2) x)
              - sum_list (map2 (*) (map ((*) 2) x) (column emb k))
              + sum_list (map (\<lambda>v. v\<^sup>2) (column emb k))) [0..<K]"

definition dist_matrix :: "mat \<Rightarrow> mat \<Rightarrow> nat \<Rightarrow> mat" where
  "dist_matrix flatten emb K = map (dist_row emb K) flatten"

text \<open>\<^verbatim>\<open>F.one_hot(embed_ind, n_embed)\<close> raises on an index that is not below \<open>n_embed\<close>.\<close>

definition F_one_hot :: "nat list \<Rightarrow> nat \<Rightarrow> error + mat" where
  "F_one_hot inds K =
     (if \<exists>i \<in> set inds. K \<le> i then Inl RuntimeError
      else Inr (map (\<lambda>i. map (\<lambda>k. of_bool (k = i)) [0..<K]) inds))"

text \<open>
  \<^verbatim>\<open>
  def embed_code(self, embed_id):
      return F.embedding(embed_id, self.embed.transpose(0, 1))
  \<close>
\<close>

definition embed_code :: "Quantize \<Rightarrow> nat list list \<Rightarrow> error + tensor3" where
  "embed_code self embed_id =
     (if \<exists>row \<in> set embed_id. \<exists>i \<in> set row. n_embed self \<le> i then Inl IndexError
      else Inr (map (map (column (embed self))) embed_id))"

text \<open>
  Lines 86 to 97 of \<open>forward\<close>, up to the code lookup:
  \<^verbatim>\<open>
  flatten = input.reshape(-1, self.dim)  # S x C
  dist = ...
  _, embed_ind = (-dist).max(1)  # S
  embed_onehot = F.one_hot(embed_ind, self.n_embed).type(flatten.dtype)  # S x K
  embed_ind = embed_ind.view(*input.shape[:-1])  # T x batch
  quantize = self.embed_code(embed_ind)  # T X batch x C
  \<close>
  \<^verbatim>\<open>max\<close> raises on a row without entries. The buffers have the shapes of
  \<open>buffers_ok\<close> in every module that \<open>__init__\<close> built and \<open>forward\<close> updated; the
  matrix product raises when the rows of \<open>flatten\<close> are not as long as \<open>embed\<close> has rows.
  An argument that is not a tensor (a nested list that is not rectangular) is a
  \<open>TypeError\<close>. \<^verbatim>\<open>reshape\<close> and \<^verbatim>\<open>view\<close> succeed together only when the last axis
  of the input has the size \<open>dim\<close>; \<open>flatten\<close> is then the list of the vectors
  \<open>input[t][b]\<close>.
\<close>

definition Quantize_assign ::
  "torch_env \<Rightarrow> Quantize \<Rightarrow> tensor3 \<Rightarrow> error + (mat \<times> mat \<times> nat list list \<times> tensor3)" where
  "Quantize_assign env self input =
     (if \<not> is_tensor3 input then Inl TypeError
      else if \<not> buffers_ok self then Inl RuntimeError
      else
        ebind (reshape_rows (dim self) (concat (concat input))) (\<lambda>flatten.
        let dist = dist_matrix flatten (embed self) (n_embed self) in
        if n_embed self = 0 then Inl RuntimeError
        else
          let embed_ind = map (\<lambda>row. max_index env (map uminus row)) dist in
          ebind (F_one_hot embed_ind (n_embed self)) (\<lambda>embed_onehot.
          ebind (view_2d (length input) (if input = [] then 0 else length (hd input)) embed_ind)
            (\<lambda>embed_ind.
          ebind (embed_code self embed_ind) (\<lambda>quantize.
          Inr (flatten, embed_onehot, embed_ind, quantize))))))"

text \<open>
  A scalar the tensor library computes as an infinity or a NaN is \<open>None\<close>: a quotient
  by zero, the mean of no elements, the unbiased variance of fewer than two.
\<close>

definition fdiv :: "real \<Rightarrow> real \<Rightarrow> real option" where
  "fdiv a b = (if b = 0 then None else Some (a / b))"

definition mean_all :: "real list \<Rightarrow> real option" where
  "mean_all xs = (if xs = [] then None else Some (sum_list xs / real (length xs)))"

definition var_all :: "real list \<Rightarrow> real option" where
  "var_all xs =
     (if length xs \<le> 1 then None
      else Some (sum_list (map (\<lambda>x. (x - sum_list xs / real (length xs))\<^sup>2) xs)
                 / real (length xs - 1)))"

text \<open>The rows a boolean mask selects: \<^verbatim>\<open>x[m]\<close> and \<^verbatim>\<open>torch.masked_select(x, m.view(-1, 1)).view(-1, d)\<close>.\<close>

definition masked_rows :: "'a list \<Rightarrow> bool list \<Rightarrow> 'a list" where
  "masked_rows rows m = map fst (filter snd (zip rows m))"

text \<open>
  \<^verbatim>\<open>effective_units = 1.0 / embed_onehot[input_mask.view(-1)].mean(0).pow(2).sum()\<close>
\<close>

definition effective_latents :: "mat \<Rightarrow> bool list \<Rightarrow> nat \<Rightarrow> real option" where
  "effective_latents embed_onehot mask_flat K =
     (let sel = masked_rows embed_onehot mask_flat in
      if sel = [] then None
      else fdiv 1 (sum_list (map (\<lambda>k. (sum_list (column sel k) / real (length sel))\<^sup>2) [0..<K])))"

text \<open>\<^verbatim>\<open>torch.distributed.all_reduce\<close>: the sum of the tensors of all processes.\<close>

definition all_reduce_vec :: "vec \<Rightarrow> vec list \<Rightarrow> error + vec" where
  "all_reduce_vec x peers =
     (if \<exists>p \<in> set peers. length p \<noteq> length x then Inl RuntimeError
      else Inr (fold (\<lambda>p acc. map2 (+) acc p) peers x))"

definition all_reduce_mat :: "mat \<Rightarrow> mat list \<Rightarrow> error + mat" where
  "all_reduce_mat x peers =
     (if \<exists>p \<in> set peers. map length p \<noteq> map length x then Inl RuntimeError
      else Inr (fold (\<lambda>p acc. map2 (map2 (+)) acc p) peers x))"

text \<open>
  Lines 115 to 123, the statistics of the batch:
  \<^verbatim>\<open>
  unmasked_flatten = torch.masked_select(flatten, input_mask.view(-1, 1)).contiguous().view(-1, self.dim)
  unmasked_embed_onehot = torch.masked_select(embed_onehot, input_mask.view(-1, 1)).contiguous().view(-1, self.n_embed)
  cluster_sum = unmasked_embed_onehot.sum(0)
  embed_sum = unmasked_flatten.transpose(0, 1) @ unmasked_embed_onehot  # C x K
  if torch.cuda.device_count() > 1:
      torch.distributed.all_reduce(cluster_sum)
      torch.distributed.all_reduce(embed_sum)
  \<close>
\<close>

definition ema_stats ::
  "torch_env \<Rightarrow> Quantize \<Rightarrow> mat \<Rightarrow> mat \<Rightarrow> bool list \<Rightarrow> error + (vec \<times> mat)" where
  "ema_stats env self flatten embed_onehot mask_flat =
     (let unmasked_flatten = masked_rows flatten mask_flat;
          unmasked_embed_onehot = masked_rows embed_onehot mask_flat;
          cluster_sum = map (\<lambda>k. sum_list (column unmasked_embed_onehot k)) [0..<n_embed self];
          embed_sum = map (\<lambda>c. map (\<lambda>k. sum_list (map2 (*) (column unmasked_flatten c)
                                                       (column unmasked_embed_onehot k)))
                                 [0..<n_embed self]) [0..<dim self]
      in if cuda_device_count env > 1 then
           (if \<not> distributed_initialized env then Inl RuntimeError
            else ebind (all_reduce_vec cluster_sum (peer_cluster_sum env)) (\<lambda>cluster_sum'.
                 ebind (all_reduce_mat embed_sum (peer_embed_sum env)) (\<lambda>embed_sum'.
                 Inr (cluster_sum', embed_sum'))))
         else Inr (cluster_sum, embed_sum))"

text \<open>
  Lines 125 to 139, the update of the buffers:
  \<^verbatim>\<open>
  self.cluster_size.data.mul_(self.decay).add_(1 - self.decay, cluster_sum)
  self.embed_avg.data.mul_(self.decay).add_(1 - self.decay, embed_sum)
  n = self.cluster_size.sum()
  cluster_size = (
      (self.cluster_size + self.eps) / (n + self.n_embed * self.eps) * n
  )
  embed_normalized = self.embed_avg / cluster_size.unsqueeze(0)
  self.embed.data.copy_(embed_normalized)
  stats['moving_avg_cluster_mean'] = torch.mean(self.cluster_size)
  stats['moving_avg_cluster_var'] = torch.var(self.cluster_size)
  \<close>
  A quotient by zero would store an infinity or a NaN in \<open>embed\<close>, which a matrix of
  reals cannot hold: the model stops there with \<open>NonFinite\<close>, the two other buffers
  updated and \<open>embed\<close> left as it was.
\<close>

definition ema_update ::
  "Quantize \<Rightarrow> vec \<Rightarrow> mat \<Rightarrow> (error + (string \<times> real option) list) \<times> Quantize" where
  "ema_update self cluster_sum embed_sum =
     (let cluster_size' = map2 (\<lambda>c s. c * decay self + (1 - decay self) * s)
                            (cluster_size self) cluster_sum;
          embed_avg' = map2 (map2 (\<lambda>a s. a * decay self + (1 - decay self) * s))
                            (embed_avg self) embed_sum;
          self' = self\<lparr>cluster_size := cluster_size', embed_avg := embed_avg'\<rparr>;
          n = sum_list cluster_size'
      in if n + real (n_embed self) * eps self = 0 then (Inl NonFinite, self')
         else let cluster_size_n =
                    map (\<lambda>c. (c + eps self) / (n + real (n_embed self) * eps self) * n) cluster_size'
           in if 0 \<in> set cluster_size_n then (Inl NonFinite, self')
              else (Inr [(''moving_avg_cluster_mean'', mean_all cluster_size'),
                         (''moving_avg_cluster_var'', var_all cluster_size')],
                    self'\<lparr>embed := map (\<lambda>row. map2 (/) row cluster_size_n) embed_avg'\<rparr>))"

text \<open>
  \<^verbatim>\<open>x * input_mask.type_as(x).unsqueeze(-1)\<close>: the mask (T x batch) gets a last axis
  of size 1, which is repeated along the channels; the two other axes broadcast.
\<close>

definition mul_mask_last :: "tensor3 \<Rightarrow> bool list list \<Rightarrow> error + tensor3" where
  "mul_mask_last x m = bcast (bcast (\<lambda>vec b. Inr (map (\<lambda>v. v * of_bool b) vec))) x m"

text \<open>The block under \<^verbatim>\<open>if self.training:\<close> (lines 114 to 139).\<close>

definition Quantize_train ::
  "torch_env \<Rightarrow> Quantize \<Rightarrow> mat \<Rightarrow> mat \<Rightarrow> bool list
     \<Rightarrow> (error + (string \<times> real option) list) \<times> Quantize" where
  "Quantize_train env self flatten embed_onehot mask_flat =
     (if training self then
        (case ema_stats env self flatten embed_onehot mask_flat of
           Inl e \<Rightarrow> (Inl e, self)
         | Inr (cluster_sum, embed_sum) \<Rightarrow> ema_update self cluster_sum embed_sum)
      else (Inr [], self))"

text \<open>
  Lines 141 to 145, the masking, the loss and the straight-through estimator:
  \<^verbatim>\<open>
  input_mask = input_mask.type_as(input)
  quantize = quantize * input_mask.unsqueeze(-1)
  input = input * input_mask.unsqueeze(-1)
  diff = (quantize.detach() - input).pow(2).mean()
  quantize = input + (quantize - input).detach()
  \<close>
  \<^verbatim>\<open>detach\<close> changes no value.
\<close>

definition straight_through ::
  "tensor3 \<Rightarrow> tensor3 \<Rightarrow> bool list list \<Rightarrow> error + (tensor3 \<times> real option)" where
  "straight_through input quantize input_mask =
     ebind (mul_mask_last quantize input_mask) (\<lambda>quantize.
     ebind (mul_mask_last input input_mask) (\<lambda>input.
     let diff = mean_all (concat (concat (map2 (map2 (map2 (\<lambda>q x. (q - x)\<^sup>2))) quantize input)))
     in Inr (map2 (map2 (map2 (\<lambda>x q. x + (q - x)))) input quantize, diff)))"

text \<open>
  \<^verbatim>\<open>
  def forward(self, input, input_mask):
      '''
      :param input: T x batch x C, number of channels: dimension C
      :param input_mask: T x batch
      '''
      ... (lines 86 to 97: Quantize_assign)
      stats = {}
      effective_units = 1.0 / embed_onehot[input_mask.view(-1)].mean(0).pow(2).sum()
      stats['effective latents per batch'] = effective_units
      if self.training:
          ... (lines 115 to 139: Quantize_train)
      ... (lines 141 to 145: straight_through)
      return quantize, diff, embed_ind, stats
  \<close>
  The result is the returned tuple or the exception, together with the module after
  the call: an exception raised after the update leaves the updated buffers behind.
  Indexing with the flattened mask raises unless the mask has as many entries as
  \<open>embed_onehot\<close> has rows.
\<close>

type_synonym forward_out = "tensor3 \<times> real option \<times> nat list list \<times> (string \<times> real option) list"

definition Quantize_forward ::
  "torch_env \<Rightarrow> Quantize \<Rightarrow> tensor3 \<Rightarrow> bool list list \<Rightarrow> (error + forward_out) \<times> Quantize" where
  "Quantize_forward env self input input_mask =
     (if \<not> is_tensor2 input_mask then (Inl TypeError, self)
      else case Quantize_assign env self input of
        Inl e \<Rightarrow> (Inl e, self)
      | Inr (flatten, embed_onehot, embed_ind, quantize) \<Rightarrow>
          if length (concat input_mask) \<noteq> length embed_onehot then (Inl IndexError, self)
          else
            let effective_units =
                  effective_latents embed_onehot (concat input_mask) (n_embed self);
                stats = [(''effective latents per batch'', effective_units)]
            in case Quantize_train env self flatten embed_onehot (concat input_mask) of
                 (Inl e, self') \<Rightarrow> (Inl e, self')
               | (Inr training_stats, self') \<Rightarrow>
                   (ebind (straight_through input quantize input_mask) (\<lambda>(quantize, diff).
                    Inr (quantize, diff, embed_ind, stats @ training_stats)),
                    self'))"

text \<open>The index line 92 gives a row \<open>x\<close> of \<open>flatten\<close>.\<close>

definition assigned_index :: "torch_env \<Rightarrow> Quantize \<Rightarrow> vec \<Rightarrow> nat" where
  "assigned_index env self x = max_index env (map uminus (dist_row (embed self) (n_embed self) x))"

text \<open>The squared Euclidean distance of two vectors, as the claims name it.\<close>

definition sqdist :: "vec \<Rightarrow> vec \<Rightarrow> real" where
  "sqdist x e = sum_list (map2 (\<lambda>a b. (a - b)\<^sup>2) x e)"

text \<open>
  The tensors the claims about the returned values name: the code lookup of the
  indices, a tensor with the vectors at masked-out positions replaced by zeros, and
  the elements of the squared difference of two tensors.
\<close>

definition mask_zeroed :: "tensor3 \<Rightarrow> bool list list \<Rightarrow> tensor3" where
  "mask_zeroed x m = map2 (map2 (\<lambda>vec b. if b then vec else map (\<lambda>_. 0) vec)) x m"

definition code_lookup :: "Quantize \<Rightarrow> nat list list \<Rightarrow> tensor3" where
  "code_lookup self embed_ind = map (map (column (embed self))) embed_ind"

definition squared_difference :: "tensor3 \<Rightarrow> tensor3 \<Rightarrow> real list" where
  "squared_difference a b = concat (concat (map2 (map2 (map2 (\<lambda>q x. (q - x)\<^sup>2))) a b))"

text \<open>A module and an environment for the examples: one process, the first largest entry.\<close>

definition example_env :: torch_env where
  "example_env = \<lparr>max_index = first_max_index, cuda_device_count = 1,
     distributed_initialized = False, peer_cluster_sum = [], peer_embed_sum = []\<rparr>"

definition example_quantize :: Quantize where
  "example_quantize = Quantize_init 2 3 (1/2) (1/10) [[0, 1, 4], [0, 1, -2]]"





section \<open>VQVAE.extract_codes\<close>











section \<open>Properties of compute_conv_mask\<close>

lemma sdiv_nonneg_pos: "0 \<le> a \<Longrightarrow> 0 < b \<Longrightarrow> (a::int) sdiv b = a div b"
  by (simp add: signed_divide_int_def sgn_if)

lemma valid_length_pos:
  assumes "1 \<le> l" and "1 \<le> s"
  shows "(l - 1) sdiv s + 1 = (l - 1) div s + 1" and "1 \<le> (l - 1) div s + (1::int)"
proof -
  show "(l - 1) sdiv s + 1 = (l - 1) div s + 1"
    using assms by (simp add: sdiv_nonneg_pos)
  have "0 \<le> (l - 1) div s"
    using assms by (simp add: pos_imp_zdiv_nonneg_iff)
  then show "1 \<le> (l - 1) div s + (1::int)" by simp
qed

lemma prefix_mask_row:
  assumes "0 \<le> v" and "nat v \<le> n"
  shows "map (\<lambda>t. int t < v) [0..<n] = replicate (nat v) True @ replicate (n - nat v) False"
proof (rule nth_equalityI)
  show "length (map (\<lambda>t. int t < v) [0..<n])
      = length (replicate (nat v) True @ replicate (n - nat v) False)"
    using assms by simp
next
  fix i assume "i < length (map (\<lambda>t. int t < v) [0..<n])"
  then have i: "i < n" by simp
  show "map (\<lambda>t. int t < v) [0..<n] ! i
      = (replicate (nat v) True @ replicate (n - nat v) False) ! i"
    using i assms by (auto simp: nth_append)
qed

text \<open>
  C4. For a batch of lengths, each at least 1, and a stride at least 1,
  \<open>compute_conv_mask\<close> returns the valid lengths \<open>(l - 1) div s + 1\<close> and a mask with
  one row per example and \<open>T'\<close> columns, \<open>T'\<close> the largest valid length, in which
  entry \<open>t\<close> of row \<open>i\<close> is true exactly when \<open>t\<close> is below the valid length of
  example \<open>i\<close>; so each row is a run of true values followed by a run of false ones.
\<close>

theorem compute_conv_mask_spec:
  assumes "lengths \<noteq> []" and "\<forall>l \<in> set lengths. 1 \<le> l" and "1 \<le> s"
  shows "\<exists>valid mask.
           compute_conv_mask lengths s = Inr (valid, mask)
         \<and> valid = map (\<lambda>l. (l - 1) div s + 1) lengths
         \<and> length mask = length lengths
         \<and> (\<forall>i < length lengths.
               length (mask ! i) = nat (Max (set valid))
             \<and> (\<forall>t < nat (Max (set valid)). mask ! i ! t \<longleftrightarrow> int t < valid ! i)
             \<and> mask ! i = replicate (nat (valid ! i)) True
                        @ replicate (nat (Max (set valid)) - nat (valid ! i)) False)"
proof -
  define valid where "valid = map (\<lambda>l. (l - 1) div s + 1) lengths"
  define T' where "T' = nat (Max (set valid))"
  define mask where "mask = map (\<lambda>v. map (\<lambda>t. int t < v) [0..<T']) valid"
  have code_valid: "map (\<lambda>l. (l - 1) sdiv s + 1) lengths = valid"
    unfolding valid_def using assms(2,3) by (simp add: valid_length_pos(1))
  have ne: "valid \<noteq> []" using assms(1) by (simp add: valid_def)
  have pos: "1 \<le> v" if "v \<in> set valid" for v
  proof -
    from that obtain l where "l \<in> set lengths" and v: "v = (l - 1) div s + 1"
      by (auto simp: valid_def)
    then have "1 \<le> l" using assms(2) by simp
    then show ?thesis unfolding v using assms(3) by (rule valid_length_pos(2))
  qed
  have max_in: "Max (set valid) \<in> set valid"
    using ne by (intro Max_in) simp_all
  then have max_pos: "1 \<le> Max (set valid)" by (rule pos)
  have le_max: "v \<le> Max (set valid)" if "v \<in> set valid" for v
    using that by simp
  have nneg: "\<not> Max (set valid) < 0" using max_pos by simp
  have ret: "compute_conv_mask lengths s = Inr (valid, mask)"
    unfolding compute_conv_mask_def code_valid Let_def mask_def T'_def
    using assms(1,3) ne nneg by simp
  have rows: "length (mask ! i) = T'
            \<and> (\<forall>t < T'. mask ! i ! t \<longleftrightarrow> int t < valid ! i)
            \<and> mask ! i = replicate (nat (valid ! i)) True @ replicate (T' - nat (valid ! i)) False"
    if "i < length lengths" for i
  proof -
    have i: "i < length valid" using that by (simp add: valid_def)
    then have mem: "valid ! i \<in> set valid" by simp
    have row: "mask ! i = map (\<lambda>t. int t < valid ! i) [0..<T']"
      using i by (simp add: mask_def)
    have "0 \<le> valid ! i" using pos [OF mem] by simp
    moreover have "nat (valid ! i) \<le> T'"
      unfolding T'_def using le_max [OF mem] by simp
    ultimately have pre: "mask ! i = replicate (nat (valid ! i)) True @ replicate (T' - nat (valid ! i)) False"
      unfolding row by (rule prefix_mask_row)
    have "length (mask ! i) = T'" by (simp add: row)
    moreover have "\<forall>t < T'. mask ! i ! t \<longleftrightarrow> int t < valid ! i" by (simp add: row)
    ultimately show ?thesis using pre by blast
  qed
  have "length mask = length lengths" by (simp add: mask_def valid_def)
  with ret rows show ?thesis
    unfolding T'_def valid_def [symmetric] by blast
qed

theorem compute_conv_mask_spec_witness:
  "compute_conv_mask [5, 1, 3] 2 = Inr ([3, 1, 2],
     [[True, True, True], [True, False, False], [True, True, False]])"
proof -
  have h1: "[5, 1, 3 :: int] \<noteq> []" by simp
  have h2: "\<forall>l \<in> set [5, 1, 3 :: int]. 1 \<le> l" by simp
  have h3: "(1::int) \<le> 2" by simp
  from compute_conv_mask_spec [OF h1 h2 h3] obtain valid mask where
    ret: "compute_conv_mask [5, 1, 3] 2 = Inr (valid, mask)"
    and valid: "valid = map (\<lambda>l. (l - 1) div 2 + 1) [5, 1, 3]"
    and len: "length mask = length [5, 1, 3 :: int]"
    and rows: "\<forall>i < length [5, 1, 3 :: int].
        mask ! i = replicate (nat (valid ! i)) True
                 @ replicate (nat (Max (set valid)) - nat (valid ! i)) False"
    by blast
  have v: "valid = [3, 1, 2]" using valid by simp
  have "mask ! 0 = [True, True, True]" "mask ! 1 = [True, False, False]"
    "mask ! 2 = [True, True, False]"
    using rows by (simp_all add: v numeral_eq_Suc)
  then have "mask = [[True, True, True], [True, False, False], [True, True, False]]"
    using len by (intro nth_equalityI) (auto simp: less_Suc_eq numeral_eq_Suc)
  then show ?thesis using ret v by simp
qed

section \<open>The error monad and broadcasting\<close>

lemma ebind_Inr_iff: "ebind m f = Inr y \<longleftrightarrow> (\<exists>x. m = Inr x \<and> f x = Inr y)"
  by (cases m) (simp_all add: ebind_def)

lemma sequence_Inr:
  "sequence xs = Inr ys \<Longrightarrow> length ys = length xs \<and> (\<forall>i < length xs. xs ! i = Inr (ys ! i))"
proof (induction xs arbitrary: ys)
  case Nil
  then show ?case by simp
next
  case (Cons x xs)
  from Cons.prems obtain v vs where x: "x = Inr v" and vs: "sequence xs = Inr vs" and ys: "ys = v # vs"
    by (auto split: sum.splits)
  from Cons.IH [OF vs] show ?case
    by (auto simp: x ys nth_Cons split: nat.splits)
qed

lemma sequence_map_Inr: "sequence (map Inr ys) = Inr ys"
  by (induction ys) simp_all

lemma bcast_Inr_at:
  assumes "bcast f xs ys = Inr zs" and "length zs = length ys" and "i < length zs"
  shows "\<exists>x \<in> set xs. f x (ys ! i) = Inr (zs ! i)"
proof (cases "length xs = length ys")
  case True
  with assms(1) have "sequence (map2 f xs ys) = Inr zs" by (simp add: bcast_def)
  from sequence_Inr [OF this] assms(3) True
  have "f (xs ! i) (ys ! i) = Inr (zs ! i)" and "i < length xs" by auto
  then show ?thesis by (metis nth_mem)
next
  case False
  show ?thesis
  proof (cases "length ys = 1")
    case True
    with False assms(1) have "sequence (map (\<lambda>x. f x (hd ys)) xs) = Inr zs"
      by (simp add: bcast_def)
    from sequence_Inr [OF this] have "length zs = length xs" by simp
    with assms(2) False show ?thesis by simp
  next
    case ys: False
    with False assms(1) have one: "length xs = 1" and "sequence (map (f (hd xs)) ys) = Inr zs"
      by (auto simp: bcast_def split: if_splits)
    from sequence_Inr [OF this(2)] assms(3) have "f (hd xs) (ys ! i) = Inr (zs ! i)" by auto
    moreover from one have "hd xs \<in> set xs" by (cases xs) auto
    ultimately show ?thesis by blast
  qed
qed

lemma mul_time_zero:
  assumes "mul_time row mrow = Inr chan" and "length chan = length mrow" and "t < length chan"
    and "\<not> mrow ! t"
  shows "chan ! t = 0"
proof -
  from bcast_Inr_at [OF assms(1) [unfolded mul_time_def] assms(2,3)]
  obtain v where "Inr (v * of_bool (mrow ! t)) = (Inr (chan ! t) :: error + real)" by blast
  with assms(4) show ?thesis by simp
qed

lemma mul_chan_rows:
  assumes "mul_chan chans mrow = Inr out" and "chan \<in> set out"
  shows "\<exists>row. mul_time row mrow = Inr chan"
proof -
  from assms(2) obtain c where c: "c < length out" and chan: "chan = out ! c"
    by (auto simp: in_set_conv_nth)
  from sequence_Inr [OF assms(1) [unfolded mul_chan_def]] c
  have "mul_time (chans ! c) mrow = Inr (out ! c)" by auto
  then show ?thesis using chan by blast
qed

lemma mul_mask_zero:
  assumes "mul_mask r m = Inr x" and "length x = length m" and "i < length x"
    and "chan \<in> set (x ! i)" and "length chan = length (m ! i)" and "t < length chan"
    and "\<not> m ! i ! t"
  shows "chan ! t = 0"
proof -
  from bcast_Inr_at [OF assms(1) [unfolded mul_mask_def] assms(2,3)]
  obtain chans where "mul_chan chans (m ! i) = Inr (x ! i)" by blast
  from mul_chan_rows [OF this assms(4)] obtain row where "mul_time row (m ! i) = Inr chan" ..
  from mul_time_zero [OF this assms(5,6,7)] show ?thesis .
qed

section \<open>The masking invariant of ConvEncoder.forward\<close>

lemma compute_conv_mask_Inr:
  assumes "compute_conv_mask lengths s = Inr (valid, msk)"
  shows "length valid = length lengths" and "length msk = length lengths"
    and "i < length lengths \<Longrightarrow> t < length (msk ! i) \<Longrightarrow> msk ! i ! t \<longleftrightarrow> int t < valid ! i"
proof -
  from assms have v: "valid = map (\<lambda>l. (l - 1) sdiv s + 1) lengths"
    and m: "msk = map (\<lambda>v. map (\<lambda>t. int t < v) [0..<nat (Max (set valid))]) valid"
    by (auto simp: compute_conv_mask_def Let_def split: if_splits)
  show "length valid = length lengths" by (simp add: v)
  then show "length msk = length lengths" by (simp add: m)
  show "msk ! i ! t \<longleftrightarrow> int t < valid ! i" if "i < length lengths" "t < length (msk ! i)"
  proof -
    have i: "i < length valid" using that(1) by (simp add: v)
    then have row: "msk ! i = map (\<lambda>t. int t < valid ! i) [0..<nat (Max (set valid))]"
      by (subst m) simp
    with that(2) show ?thesis by simp
  qed
qed

lemma conv_step_Inr:
  assumes "conv_step (conv_layer, s) (input, lengths, new_mask) = Inr (x, l, m)"
  shows "\<exists>y msk. conv_layer input = Inr y \<and> compute_conv_mask lengths s = Inr (l, msk)
           \<and> mul_mask (F_relu y) msk = Inr x \<and> m = Some msk"
  using assms by (auto simp: conv_step_def ebind_Inr_iff)

lemma conv_loop_append:
  "conv_loop (as @ bs) st = ebind (conv_loop as st) (conv_loop bs)"
proof (induction as arbitrary: st)
  case Nil
  then show ?case by (simp add: ebind_def)
next
  case (Cons a as)
  then show ?case by (cases "conv_step a st") (simp_all add: ebind_def)
qed

lemma conv_loop_last:
  assumes "ii < length layers"
    and "conv_loop (take (Suc ii) layers) st = Inr st'"
  shows "\<exists>st0. conv_loop (take ii layers) st = Inr st0 \<and> conv_step (layers ! ii) st0 = Inr st'"
proof -
  have "take (Suc ii) layers = take ii layers @ [layers ! ii]"
    using assms(1) by (rule take_Suc_conv_app_nth)
  with assms(2) have "ebind (conv_loop (take ii layers) st) (conv_loop [layers ! ii]) = Inr st'"
    by (simp add: conv_loop_append)
  then obtain st0 where "conv_loop (take ii layers) st = Inr st0"
    and "conv_loop [layers ! ii] st0 = Inr st'"
    by (auto simp: ebind_Inr_iff)
  moreover from this(2) have "conv_step (layers ! ii) st0 = Inr st'"
    by (auto simp: ebind_Inr_iff)
  ultimately show ?thesis by blast
qed

text \<open>
  C6, as the code has it. After the loop of \<open>ConvEncoder.forward\<close> has processed
  layer \<open>ii\<close>, the activations are zero at every time step \<open>t\<close> of example \<open>i\<close>
  that is not below the new valid length of example \<open>i\<close>, provided the mask computed
  at that layer has the batch size and the number of time steps of the activations,
  so that the product did not repeat a mask axis of size 1.
\<close>

theorem ConvEncoder_forward_masked:
  assumes "ii < length (zip (conv_blocks self) (strides self))"
    and "conv_loop (take (Suc ii) (zip (conv_blocks self) (strides self))) (input, lengths, None)
           = Inr (x, l, new_mask)"
  shows "\<exists>msk. new_mask = Some msk
          \<and> (length msk = length x \<longrightarrow>
               (\<forall>i < length x. \<forall>chan \<in> set (x ! i). length chan = length (msk ! i) \<longrightarrow>
                  (\<forall>t < length chan. l ! i \<le> int t \<longrightarrow> chan ! t = 0)))"
proof -
  from conv_loop_last [OF assms] obtain x0 l0 m0 where
    step: "conv_step (zip (conv_blocks self) (strides self) ! ii) (x0, l0, m0) = Inr (x, l, new_mask)"
    by (metis prod_cases3)
  obtain conv_layer s where layer: "zip (conv_blocks self) (strides self) ! ii = (conv_layer, s)"
    by (cases "zip (conv_blocks self) (strides self) ! ii")
  from conv_step_Inr [OF step [unfolded layer]] obtain y msk where
    cm: "compute_conv_mask l0 s = Inr (l, msk)" and mm: "mul_mask (F_relu y) msk = Inr x"
    and nm: "new_mask = Some msk"
    by blast
  have "chan ! t = 0"
    if "length msk = length x" "i < length x" "chan \<in> set (x ! i)"
      "length chan = length (msk ! i)" "t < length chan" "l ! i \<le> int t" for i chan t
  proof -
    have len: "length x = length msk" using that(1) by simp
    have "i < length l0" using that(1,2) compute_conv_mask_Inr(2) [OF cm] by simp
    moreover have "t < length (msk ! i)" using that(4,5) by simp
    ultimately have "msk ! i ! t \<longleftrightarrow> int t < l ! i"
      by (rule compute_conv_mask_Inr(3) [OF cm])
    with that(6) have "\<not> msk ! i ! t" by simp
    from mul_mask_zero [OF mm len that(2,3,4,5) this] show ?thesis .
  qed
  with nm show ?thesis by blast
qed


theorem ConvEncoder_forward_masked_witness:
  "conv_loop (take (Suc 0) (zip (conv_blocks \<lparr>strides = [2], conv_blocks = [pointwise_conv 2],
        quant_conv = pointwise_conv 1\<rparr>) (strides \<lparr>strides = [2], conv_blocks = [pointwise_conv 2],
        quant_conv = pointwise_conv 1\<rparr>)))
      ([[[1, 2, 3, 4, 5]], [[6, 7, 8, 9, 10]]], [5, 2], None)
    = Inr ([[[1, 3, 5]], [[6, 0, 0]]], [3, 1], Some [[True, True, True], [True, False, False]])
   \<and> [[[1, 3, 5]], [[6, 0, 0 :: real]]] ! 1 ! 0 ! 2 = 0"
proof -
  define self where "self = \<lparr>strides = [2], conv_blocks = [pointwise_conv 2],
        quant_conv = pointwise_conv 1\<rparr>"
  have h1: "0 < length (zip (conv_blocks self) (strides self))"
    by (simp add: self_def)
  have h2: "conv_loop (take (Suc 0) (zip (conv_blocks self) (strides self)))
      ([[[1, 2, 3, 4, 5]], [[6, 7, 8, 9, 10]]], [5, 2], None)
    = Inr ([[[1, 3, 5]], [[6, 0, 0]]], [3, 1], Some [[True, True, True], [True, False, False]])"
    unfolding self_def by code_simp
  from ConvEncoder_forward_masked [OF h1 h2]
  have "\<forall>i < length [[[1, 3, 5]], [[6, 0, 0 :: real]]].
          \<forall>chan \<in> set ([[[1, 3, 5]], [[6, 0, 0 :: real]]] ! i).
            length chan = length ([[True, True, True], [True, False, False]] ! i) \<longrightarrow>
            (\<forall>t < length chan. [3, 1 :: int] ! i \<le> int t \<longrightarrow> chan ! t = 0)"
    by simp
  then have "[[[1, 3, 5]], [[6, 0, 0 :: real]]] ! 1 ! 0 ! 2 = 0"
    by simp
  with h2 show ?thesis unfolding self_def by blast
qed

text \<open>
  C6, as stated, fails when the mask has a single column and the activations have
  more time steps: the product repeats the column along the time axis. One example
  of length 1 in activations of three time steps, a layer of kernel size 1 and
  stride 1: the valid length stays 1, and time steps 1 and 2 keep their value 1.
  The output then has three time steps and a mask of one column.
\<close>

theorem ConvEncoder_forward_unmasked_counterexample:
  "conv_loop (take (Suc 0) (zip (conv_blocks \<lparr>strides = [1], conv_blocks = [pointwise_conv 1],
        quant_conv = pointwise_conv 1\<rparr>) (strides \<lparr>strides = [1], conv_blocks = [pointwise_conv 1],
        quant_conv = pointwise_conv 1\<rparr>)))
      ([[[1, 1, 1]]], [1], None)
    = Inr ([[[1, 1, 1]]], [1], Some [[True]])
   \<and> [1 :: int] ! 0 \<le> int 1
   \<and> [[[1, 1, 1 :: real]]] ! 0 ! 0 ! 1 \<noteq> 0
   \<and> ConvEncoder_forward \<lparr>strides = [1], conv_blocks = [pointwise_conv 1],
        quant_conv = pointwise_conv 1\<rparr> [[[1, 1, 1]]] [1]
     = Inr ([[[1]], [[1]], [[1]]], Some [[True]])"
  by code_simp

section \<open>The two copies of compute_conv_mask and ConvEncoder\<close>

lemma compute_conv_mask_same:
  "conv_encoder_compute_conv_mask = compute_conv_mask"
  by (intro ext) (simp add: conv_encoder_compute_conv_mask_def compute_conv_mask_def)

lemma conv_step_same: "conv_encoder_conv_step = conv_step"
  by (intro ext) (simp add: conv_encoder_conv_step_def conv_step_def compute_conv_mask_same)

lemma conv_loop_same: "conv_encoder_conv_loop layers st = conv_loop layers st"
  by (induction layers arbitrary: st) (simp_all add: conv_step_same ebind_def split: sum.splits)

text \<open>
  C10. The \<open>compute_conv_mask\<close> of \<^verbatim>\<open>conv_encoder.py\<close> and that of \<^verbatim>\<open>vqvae_lm.py\<close>
  return the same valid lengths and the same mask (or raise alike) on every lengths
  vector and stride, and the two \<open>ConvEncoder\<close> classes return the same output on
  the same layers, strides, input and lengths.
\<close>

theorem conv_encoder_same:
  "conv_encoder_compute_conv_mask lengths stride = compute_conv_mask lengths stride
   \<and> conv_encoder_ConvEncoder_forward self input lengths = ConvEncoder_forward self input lengths"
  by (simp add: compute_conv_mask_same conv_encoder_ConvEncoder_forward_def
      ConvEncoder_forward_def conv_loop_same)

theorem conv_encoder_same_witness:
  "conv_encoder_compute_conv_mask [5, 2] 2 = Inr ([3, 1], [[True, True, True], [True, False, False]])
   \<and> conv_encoder_ConvEncoder_forward \<lparr>strides = [2], conv_blocks = [pointwise_conv 2],
        quant_conv = pointwise_conv 1\<rparr> [[[1, 2, 3, 4, 5]], [[6, 7, 8, 9, 10]]] [5, 2]
     = Inr ([[[1], [6]], [[3], [0]], [[5], [0]]], Some [[True, True, True], [True, False, False]])"
proof -
  have "compute_conv_mask [5, 2] 2 = Inr ([3, 1], [[True, True, True], [True, False, False]])"
    by code_simp
  moreover have "ConvEncoder_forward \<lparr>strides = [2], conv_blocks = [pointwise_conv 2],
        quant_conv = pointwise_conv 1\<rparr> [[[1, 2, 3, 4, 5]], [[6, 7, 8, 9, 10]]] [5, 2]
     = Inr ([[[1], [6]], [[3], [0]], [[5], [0]]], Some [[True, True, True], [True, False, False]])"
    by code_simp
  ultimately show ?thesis
    using conv_encoder_same [of "[5, 2]" 2 "\<lparr>strides = [2], conv_blocks = [pointwise_conv 2],
        quant_conv = pointwise_conv 1\<rparr>" "[[[1, 2, 3, 4, 5]], [[6, 7, 8, 9, 10]]]"]
    by simp
qed

section \<open>Quantize.forward: the assignment to codes\<close>


lemma length_concat_uniform:
  "\<forall>xs \<in> set xss. length xs = n \<Longrightarrow> length (concat xss) = length xss * n"
  by (induction xss) simp_all

lemma chunks_Nil [simp]: "chunks n [] = []"
  by (simp add: chunks.simps)

lemma chunks_concat:
  "0 < n \<Longrightarrow> \<forall>xs \<in> set xss. length xs = n \<Longrightarrow> chunks n (concat xss) = xss"
proof (induction xss)
  case Nil
  then show ?case by simp
next
  case (Cons xs xss)
  then have "xs \<noteq> []" and "length xs = n" by auto
  then have "chunks n (concat (xs # xss)) = xs # chunks n (concat xss)"
    using Cons.prems(1) by (subst chunks.simps) simp
  with Cons show ?case by simp
qed

lemma length_chunks:
  "0 < n \<Longrightarrow> length xs mod n = 0 \<Longrightarrow> length (chunks n xs) = length xs div n"
proof (induction n xs rule: chunks.induct)
  case (1 n xs)
  show ?case
  proof (cases "xs = []")
    case True
    then show ?thesis by simp
  next
    case False
    with "1.prems" have le: "n \<le> length xs"
      by (metis length_greater_0_conv mod_less not_le_imp_less less_irrefl)
    then have m: "length (drop n xs) mod n = 0"
      using "1.prems" by (simp add: le_mod_geq)
    have "length (chunks n xs) = Suc (length (chunks n (drop n xs)))"
      using False "1.prems"(1) by (subst chunks.simps) simp
    also have "\<dots> = Suc (length (drop n xs) div n)"
      using "1.IH" False "1.prems"(1) m by simp
    also have "\<dots> = length xs div n"
      using le "1.prems"(1) by (simp add: le_div_geq)
    finally show ?thesis .
  qed
qed

lemma sequence_map_Inr_eq:
  "\<forall>z \<in> set zs. f z = Inr (g z) \<Longrightarrow> sequence (map f zs) = Inr (map g zs)"
  by (induction zs) simp_all

lemma all_Nil_replicate: "\<forall>xs \<in> set xss. xs = [] \<Longrightarrow> xss = replicate (length xss) []"
  by (induction xss) simp_all

lemma view_2d_map_concat:
  assumes "\<forall>row \<in> set x. length row = B"
  shows "view_2d (length x) B (map f (concat x)) = Inr (map (map f) x)"
proof -
  have len: "length (map f (concat x)) = length x * B"
    using assms by (simp add: length_concat_uniform)
  show ?thesis
  proof (cases "B = 0")
    case True
    with assms have "\<forall>row \<in> set (map (map f) x). row = []" by simp
    from all_Nil_replicate [OF this] have "map (map f) x = replicate (length x) []" by simp
    with True len show ?thesis by (simp add: view_2d_def)
  next
    case False
    have "chunks B (map f (concat x)) = chunks B (concat (map (map f) x))"
      by (simp add: map_concat)
    also have "\<dots> = map (map f) x"
      using False assms by (intro chunks_concat) simp_all
    finally show ?thesis using False len by (simp add: view_2d_def)
  qed
qed




lemma Quantize_assign_parts:
  assumes "Quantize_assign env self input = Inr (flatten, embed_onehot, embed_ind, quantize)"
  shows "is_tensor3 input" and "buffers_ok self" and "n_embed self \<noteq> 0"
    and "reshape_rows (dim self) (concat (concat input)) = Inr flatten"
    and "F_one_hot (map (\<lambda>row. max_index env (map uminus row))
            (dist_matrix flatten (embed self) (n_embed self))) (n_embed self) = Inr embed_onehot"
    and "view_2d (length input) (if input = [] then 0 else length (hd input))
           (map (\<lambda>row. max_index env (map uminus row))
            (dist_matrix flatten (embed self) (n_embed self))) = Inr embed_ind"
    and "embed_code self embed_ind = Inr quantize"
proof -
  show t3: "is_tensor3 input"
  proof (rule ccontr)
    assume "\<not> is_tensor3 input"
    then have "Quantize_assign env self input = Inl TypeError"
      by (simp add: Quantize_assign_def)
    with assms show False by simp
  qed
  show bo: "buffers_ok self"
  proof (rule ccontr)
    assume "\<not> buffers_ok self"
    then have "Quantize_assign env self input = Inl RuntimeError"
      using t3 by (simp add: Quantize_assign_def)
    with assms show False by simp
  qed
  obtain fl0 where rs0: "reshape_rows (dim self) (concat (concat input)) = Inr fl0"
  proof (cases "reshape_rows (dim self) (concat (concat input))")
    case (Inl e)
    then have "Quantize_assign env self input = Inl e"
      using t3 bo by (simp add: Quantize_assign_def ebind_def)
    with assms show ?thesis by simp
  next
    case (Inr fl0)
    then show ?thesis by (rule that)
  qed
  show K: "n_embed self \<noteq> 0"
  proof
    assume "n_embed self = 0"
    then have "Quantize_assign env self input = Inl RuntimeError"
      using t3 bo rs0 by (simp add: Quantize_assign_def ebind_def Let_def)
    with assms show False by simp
  qed
  define ei where "ei = map (\<lambda>row. max_index env (map uminus row))
            (dist_matrix fl0 (embed self) (n_embed self))"
  have unf: "Quantize_assign env self input =
      ebind (F_one_hot ei (n_embed self)) (\<lambda>embed_onehot.
      ebind (view_2d (length input) (if input = [] then 0 else length (hd input)) ei) (\<lambda>embed_ind.
      ebind (embed_code self embed_ind) (\<lambda>quantize.
      Inr (fl0, embed_onehot, embed_ind, quantize))))"
    using t3 bo rs0 K by (simp add: Quantize_assign_def ebind_def Let_def ei_def)
  obtain oh0 where oh0: "F_one_hot ei (n_embed self) = Inr oh0"
  proof (cases "F_one_hot ei (n_embed self)")
    case (Inl e)
    then have "Quantize_assign env self input = Inl e"
      unfolding unf by (simp add: ebind_def)
    with assms show ?thesis by simp
  next
    case (Inr v)
    then show ?thesis by (rule that)
  qed
  obtain ei0 where ei0: "view_2d (length input) (if input = [] then 0 else length (hd input)) ei = Inr ei0"
  proof (cases "view_2d (length input) (if input = [] then 0 else length (hd input)) ei")
    case (Inl e)
    then have "Quantize_assign env self input = Inl e"
      unfolding unf by (simp add: ebind_def oh0)
    with assms show ?thesis by simp
  next
    case (Inr v)
    then show ?thesis by (rule that)
  qed
  obtain q0 where q0: "embed_code self ei0 = Inr q0"
  proof (cases "embed_code self ei0")
    case (Inl e)
    then have "Quantize_assign env self input = Inl e"
      unfolding unf by (simp add: ebind_def oh0 ei0)
    with assms show ?thesis by simp
  next
    case (Inr v)
    then show ?thesis by (rule that)
  qed
  have "Quantize_assign env self input = Inr (fl0, oh0, ei0, q0)"
    unfolding unf by (simp add: ebind_def oh0 ei0 q0)
  with assms have e4: "fl0 = flatten" "oh0 = embed_onehot" "ei0 = embed_ind" "q0 = quantize"
    by simp_all
  show "reshape_rows (dim self) (concat (concat input)) = Inr flatten"
    using rs0 e4 by simp
  show "F_one_hot (map (\<lambda>row. max_index env (map uminus row))
            (dist_matrix flatten (embed self) (n_embed self))) (n_embed self) = Inr embed_onehot"
    using oh0 e4 by (simp add: ei_def)
  show "view_2d (length input) (if input = [] then 0 else length (hd input))
           (map (\<lambda>row. max_index env (map uminus row))
            (dist_matrix flatten (embed self) (n_embed self))) = Inr embed_ind"
    using ei0 e4 by (simp add: ei_def)
  show "embed_code self embed_ind = Inr quantize"
    using q0 e4 by simp
qed


lemma Quantize_assign_Inr:
  assumes "Quantize_assign env self input = Inr (flatten, embed_onehot, embed_ind, quantize)"
  shows "flatten = concat input"
    and "\<forall>v \<in> set (concat input). length v = dim self"
    and "embed_ind = map (map (assigned_index env self)) input"
    and "\<forall>v \<in> set (concat input). assigned_index env self v < n_embed self"
    and "embed_onehot = map (\<lambda>v. map (\<lambda>k. of_bool (k = assigned_index env self v))
                                  [0..<n_embed self]) (concat input)"
    and "quantize = map (map (column (embed self))) embed_ind"
proof -
  define B where "B = (if input = [] then 0 else length (hd input))"
  define C where "C = length (hd (concat input))"
  note parts = Quantize_assign_parts [OF assms]
  note t3 = parts(1) and rs = parts(4) and ec = parts(7)
  have ix: "map (\<lambda>row. max_index env (map uminus row))
               (dist_matrix flatten (embed self) (n_embed self))
          = map (assigned_index env self) flatten"
    by (simp add: dist_matrix_def assigned_index_def)
  have oh: "F_one_hot (map (assigned_index env self) flatten) (n_embed self) = Inr embed_onehot"
    using parts(5) unfolding ix .
  have vw: "view_2d (length input) B (map (assigned_index env self) flatten) = Inr embed_ind"
    using parts(6) unfolding ix B_def .
  from rs have d: "0 < dim self" and md: "length (concat (concat input)) mod dim self = 0"
    and fl: "flatten = chunks (dim self) (concat (concat input))"
    by (auto simp: reshape_rows_def split: if_splits)
  have rows: "\<forall>row \<in> set input. length row = B"
  proof (cases "input = []")
    case True
    then show ?thesis by simp
  next
    case False
    then have "B = length (hd input)" by (simp add: B_def)
    moreover have "is_tensor2 input" using t3 by (simp add: is_tensor3_def)
    ultimately show ?thesis by (simp add: is_tensor2_def)
  qed
  have "is_tensor2 (concat input)" using t3 by (simp add: is_tensor3_def)
  then have vecs: "\<forall>v \<in> set (concat input). length v = C"
    unfolding is_tensor2_def C_def .
  have lc: "length (concat input) = length input * B"
    using rows by (rule length_concat_uniform)
  have lf: "length (concat (concat input)) = length input * B * C"
    using length_concat_uniform [OF vecs] lc by simp
  have S: "length flatten = length input * B * C div dim self"
    unfolding fl using d md lf by (simp add: length_chunks)
  from vw have cnt: "length flatten = length input * B"
    by (simp add: view_2d_def split: if_splits)
  have flat: "flatten = concat input \<and> (\<forall>v \<in> set (concat input). length v = dim self)"
  proof (cases "length input * B = 0")
    case True
    with lc have ci: "concat input = []" by simp
    have "flatten = []" unfolding fl ci by simp
    then show ?thesis unfolding ci by simp
  next
    case False
    have "dim self dvd length input * B * C"
      using md unfolding lf by (simp add: dvd_eq_mod_eq_0)
    then have "length input * B * C = dim self * (length input * B * C div dim self)"
      by (rule dvd_mult_div_cancel [symmetric])
    also have "\<dots> = dim self * (length input * B)" using S cnt by simp
    finally have "C = dim self" using False by (simp add: mult.commute)
    with vecs have v: "\<forall>v \<in> set (concat input). length v = dim self" by simp
    with d have "chunks (dim self) (concat (concat input)) = concat input"
      by (intro chunks_concat)
    with v show ?thesis by (simp add: fl)
  qed
  then show f: "flatten = concat input"
    and "\<forall>v \<in> set (concat input). length v = dim self" by simp_all
  from vw view_2d_map_concat [OF rows, of "assigned_index env self"]
  show ei: "embed_ind = map (map (assigned_index env self)) input"
    by (simp add: f)
  have nex: "\<not> (\<exists>i \<in> set (map (assigned_index env self) (concat input)). n_embed self \<le> i)"
    using oh unfolding F_one_hot_def f by (simp split: if_splits)
  then show "\<forall>v \<in> set (concat input). assigned_index env self v < n_embed self"
    by (simp add: not_le)
  from oh nex show "embed_onehot = map (\<lambda>v. map (\<lambda>k. of_bool (k = assigned_index env self v))
                                  [0..<n_embed self]) (concat input)"
    unfolding F_one_hot_def f by (simp add: o_def)
  from ec show "quantize = map (map (column (embed self))) embed_ind"
    by (simp add: embed_code_def split: if_splits)
qed


lemma Quantize_forward_unfold:
  assumes "is_tensor2 input_mask"
    and "Quantize_assign env self input = Inr (flatten, embed_onehot, embed_ind, quantize)"
    and "length (concat input_mask) = length embed_onehot"
    and "Quantize_train env self flatten embed_onehot (concat input_mask) = (r, self')"
  shows "Quantize_forward env self input input_mask =
     (case r of Inl e \<Rightarrow> Inl e
      | Inr training_stats \<Rightarrow>
          ebind (straight_through input quantize input_mask) (\<lambda>(quantize, diff).
            Inr (quantize, diff, embed_ind,
                 [(''effective latents per batch'',
                   effective_latents embed_onehot (concat input_mask) (n_embed self))]
                 @ training_stats)),
      self')"
  using assms by (cases r) (simp_all add: Quantize_forward_def Let_def)

lemma Quantize_forward_Inr:
  assumes "Quantize_forward env self input input_mask
             = (Inr (quantize_out, diff, embed_ind, stats), self')"
  shows "\<exists>flatten embed_onehot quantize training_stats.
           is_tensor2 input_mask
         \<and> Quantize_assign env self input = Inr (flatten, embed_onehot, embed_ind, quantize)
         \<and> length (concat input_mask) = length embed_onehot
         \<and> Quantize_train env self flatten embed_onehot (concat input_mask)
             = (Inr training_stats, self')
         \<and> straight_through input quantize input_mask = Inr (quantize_out, diff)
         \<and> stats = [(''effective latents per batch'',
                      effective_latents embed_onehot (concat input_mask) (n_embed self))]
                    @ training_stats"
proof -
  have t2: "is_tensor2 input_mask"
  proof (rule ccontr)
    assume "\<not> is_tensor2 input_mask"
    then have "Quantize_forward env self input input_mask = (Inl TypeError, self)"
      by (simp add: Quantize_forward_def)
    with assms show False by simp
  qed
  obtain flatten embed_onehot ei quantize where
    asg: "Quantize_assign env self input = Inr (flatten, embed_onehot, ei, quantize)"
  proof (cases "Quantize_assign env self input")
    case (Inl e)
    then have "Quantize_forward env self input input_mask = (Inl e, self)"
      using t2 by (simp add: Quantize_forward_def)
    with assms show ?thesis by simp
  next
    case (Inr v)
    then show ?thesis by (cases v) (auto intro: that)
  qed
  have len: "length (concat input_mask) = length embed_onehot"
  proof (rule ccontr)
    assume "length (concat input_mask) \<noteq> length embed_onehot"
    then have "Quantize_forward env self input input_mask = (Inl IndexError, self)"
      using t2 asg by (simp add: Quantize_forward_def)
    with assms show False by simp
  qed
  obtain r s1 where tr: "Quantize_train env self flatten embed_onehot (concat input_mask) = (r, s1)"
    by (cases "Quantize_train env self flatten embed_onehot (concat input_mask)")
  note unf = Quantize_forward_unfold [OF t2 asg len tr]
  from assms [unfolded unf] have s1: "s1 = self'" by simp
  obtain training_stats where r: "r = Inr training_stats"
    using assms [unfolded unf] by (cases r) simp_all
  from assms [unfolded unf r] have
    "ebind (straight_through input quantize input_mask) (\<lambda>(quantize, diff).
            Inr (quantize, diff, ei,
                 [(''effective latents per batch'',
                   effective_latents embed_onehot (concat input_mask) (n_embed self))]
                 @ training_stats)) = Inr (quantize_out, diff, embed_ind, stats)"
    by simp
  then obtain p where st: "straight_through input quantize input_mask = Inr p"
    and eq: "(case p of (quantize, diff) \<Rightarrow>
            (Inr (quantize, diff, ei,
                 [(''effective latents per batch'',
                   effective_latents embed_onehot (concat input_mask) (n_embed self))]
                 @ training_stats) :: error + forward_out)) = Inr (quantize_out, diff, embed_ind, stats)"
    unfolding ebind_Inr_iff by blast
  from eq have "p = (quantize_out, diff)" and "ei = embed_ind"
    and "stats = [(''effective latents per batch'',
                   effective_latents embed_onehot (concat input_mask) (n_embed self))]
                 @ training_stats"
    by (cases p; simp)+
  with t2 asg len tr st s1 r show ?thesis by blast
qed

lemma Quantize_train_eval:
  "\<not> training self \<Longrightarrow> Quantize_train env self flatten embed_onehot mask_flat = (Inr [], self)"
  by (simp add: Quantize_train_def)

text \<open>
  C8. In evaluation mode (\<open>training\<close> false) a call of \<open>forward\<close> leaves the buffers
  \<open>embed\<close>, \<open>cluster_size\<close> and \<open>embed_avg\<close> as they were, whatever the input and
  the mask are and whether the call returns or raises: the module after the call is
  the module before it.
\<close>

theorem Quantize_forward_eval_frame:
  assumes "\<not> training self"
  shows "embed (snd (Quantize_forward env self input input_mask)) = embed self
       \<and> cluster_size (snd (Quantize_forward env self input input_mask)) = cluster_size self
       \<and> embed_avg (snd (Quantize_forward env self input input_mask)) = embed_avg self
       \<and> snd (Quantize_forward env self input input_mask) = self"
proof -
  have "snd (Quantize_forward env self input input_mask) = self"
  proof (cases "is_tensor2 input_mask")
    case False
    then show ?thesis by (simp add: Quantize_forward_def)
  next
    case t2: True
    show ?thesis
    proof (cases "Quantize_assign env self input")
      case (Inl e)
      then show ?thesis using t2 by (simp add: Quantize_forward_def)
    next
      case (Inr v)
      obtain flatten embed_onehot embed_ind quantize
        where v: "v = (flatten, embed_onehot, embed_ind, quantize)"
        by (cases v)
      show ?thesis
      proof (cases "length (concat input_mask) = length embed_onehot")
        case False
        then show ?thesis using t2 Inr v by (simp add: Quantize_forward_def)
      next
        case True
        from Quantize_forward_unfold [OF t2 Inr [unfolded v] True Quantize_train_eval [OF assms]]
        show ?thesis by simp
      qed
    qed
  qed
  then show ?thesis by simp
qed


lemma dist_expand:
  "length x = length e \<Longrightarrow>
     sum_list (map (\<lambda>v. v\<^sup>2) x) - sum_list (map2 (*) (map ((*) 2) x) e)
       + sum_list (map (\<lambda>v. v\<^sup>2) e) = sqdist x e"
proof (induction x e rule: list_induct2)
  case Nil
  then show ?case by (simp add: sqdist_def)
next
  case (Cons a x b e)
  define S1 where "S1 = sum_list (map (\<lambda>v. v\<^sup>2) x)"
  define S2 where "S2 = sum_list (map2 (*) (map ((*) 2) x) e)"
  define S3 where "S3 = sum_list (map (\<lambda>v. v\<^sup>2) e)"
  have ih: "sqdist x e = S1 - S2 + S3"
    using Cons.IH by (simp add: S1_def S2_def S3_def)
  have l1: "sum_list (map (\<lambda>v. v\<^sup>2) (a # x)) = a\<^sup>2 + S1" by (simp add: S1_def)
  have l2: "sum_list (map2 (*) (map ((*) 2) (a # x)) (b # e)) = 2 * a * b + S2"
    by (simp add: S2_def)
  have l3: "sum_list (map (\<lambda>v. v\<^sup>2) (b # e)) = b\<^sup>2 + S3" by (simp add: S3_def)
  have r: "sqdist (a # x) (b # e) = (a - b)\<^sup>2 + sqdist x e" by (simp add: sqdist_def)
  show ?case unfolding l1 l2 l3 r ih by (simp add: power2_diff)
qed

lemma length_dist_row [simp]: "length (dist_row emb K x) = K"
  by (simp add: dist_row_def)

lemma dist_row_nth:
  assumes "k < K" and "length x = length emb"
  shows "dist_row emb K x ! k = sqdist x (column emb k)"
proof -
  have "length x = length (column emb k)" using assms(2) by (simp add: column_def)
  from dist_expand [OF this] show ?thesis using assms(1) by (simp add: dist_row_def)
qed

lemma assigned_index_nearest:
  assumes "max_index_ok (max_index env)" and "0 < n_embed self"
    and "length x = length (embed self)"
  shows "assigned_index env self x < n_embed self"
    and "k < n_embed self \<Longrightarrow>
         sqdist x (column (embed self) (assigned_index env self x)) \<le> sqdist x (column (embed self) k)"
proof -
  define row where "row = map uminus (dist_row (embed self) (n_embed self) x)"
  have len: "length row = n_embed self" by (simp add: row_def)
  then have ne: "row \<noteq> []" using assms(2) by auto
  from assms(1) ne have lt: "max_index env row < length row"
    and mx: "\<forall>j < length row. row ! j \<le> row ! max_index env row"
    unfolding max_index_ok_def by blast+
  have ai: "assigned_index env self x = max_index env row"
    by (simp add: assigned_index_def row_def)
  show a: "assigned_index env self x < n_embed self" using lt len ai by simp
  show "sqdist x (column (embed self) (assigned_index env self x)) \<le> sqdist x (column (embed self) k)"
    if k: "k < n_embed self"
  proof -
    have rk: "row ! k = - sqdist x (column (embed self) k)"
      using k assms(3) by (simp add: row_def dist_row_nth)
    have ra: "row ! max_index env row = - sqdist x (column (embed self) (max_index env row))"
      using lt len assms(3) by (simp add: row_def dist_row_nth)
    from mx k len have "row ! k \<le> row ! max_index env row" by simp
    then show ?thesis unfolding rk ra ai by simp
  qed
qed

lemma nth_concat_mem: "t < length xss \<Longrightarrow> b < length (xss ! t) \<Longrightarrow> xss ! t ! b \<in> set (concat xss)"
  by (metis concat.simps nth_mem set_concat UN_I)



lemma bcast_same_length:
  "length xs = length ys \<Longrightarrow> bcast f xs ys = sequence (map2 f xs ys)"
  by (simp add: bcast_def)

lemma sequence_map2_Inr_eq:
  assumes "length xs = length ys" and "\<forall>i < length xs. f (xs ! i) (ys ! i) = Inr (g (xs ! i) (ys ! i))"
  shows "sequence (map2 f xs ys) = Inr (map2 g xs ys)"
proof -
  have "\<forall>z \<in> set (zip xs ys). (case z of (x, y) \<Rightarrow> f x y) = Inr (case z of (x, y) \<Rightarrow> g x y)"
    using assms by (auto simp: in_set_zip)
  from sequence_map_Inr_eq [OF this] show ?thesis .
qed

lemma mul_mask_last_same_shape:
  assumes "length m = length x" and "\<forall>t < length x. length (m ! t) = length (x ! t)"
  shows "mul_mask_last x m = Inr (mask_zeroed x m)"
proof -
  have inner: "bcast (\<lambda>vec b. Inr (map (\<lambda>v. v * of_bool b) vec)) (x ! t) (m ! t)
      = Inr (map2 (\<lambda>vec b. if b then vec else map (\<lambda>_. 0) vec) (x ! t) (m ! t))"
    if "t < length x" for t
  proof -
    have l: "length (x ! t) = length (m ! t)" using assms(2) that by simp
    have "sequence (map2 (\<lambda>vec b. Inr (map (\<lambda>v. v * of_bool b) vec)) (x ! t) (m ! t))
        = (Inr (map2 (\<lambda>vec b. if b then vec else map (\<lambda>_. 0) vec) (x ! t) (m ! t))
            :: error + real list list)"
      by (rule sequence_map2_Inr_eq [OF l]) simp
    then show ?thesis by (simp add: bcast_same_length [OF l])
  qed
  have l: "length x = length m" using assms(1) by simp
  have "sequence (map2 (bcast (\<lambda>vec b. Inr (map (\<lambda>v. v * of_bool b) vec))) x m)
      = Inr (map2 (map2 (\<lambda>vec b. if b then vec else map (\<lambda>_. 0) vec)) x m)"
    by (rule sequence_map2_Inr_eq [OF l]) (simp add: inner)
  then show ?thesis by (simp add: mul_mask_last_def mask_zeroed_def bcast_same_length [OF l])
qed


lemma straight_through_same_shape:
  assumes "length m = length x" and "\<forall>t < length x. length (m ! t) = length (x ! t)"
    and "length q = length x" and "\<forall>t < length x. length (q ! t) = length (x ! t)"
  shows "straight_through x q m =
     Inr (map2 (map2 (map2 (\<lambda>x q. x + (q - x)))) (mask_zeroed x m) (mask_zeroed q m),
          mean_all (squared_difference (mask_zeroed q m) (mask_zeroed x m)))"
proof -
  have "mul_mask_last x m = Inr (mask_zeroed x m)"
    using assms(1,2) by (rule mul_mask_last_same_shape)
  moreover have "mul_mask_last q m = Inr (mask_zeroed q m)"
    using assms by (intro mul_mask_last_same_shape) simp_all
  ultimately show ?thesis
    by (simp add: straight_through_def ebind_def Let_def squared_difference_def)
qed




lemma mask_zeroed_nth:
  assumes "t < length x" "t < length m" "b < length (x ! t)" "b < length (m ! t)"
  shows "mask_zeroed x m ! t ! b = (if m ! t ! b then x ! t ! b else map (\<lambda>_. 0) (x ! t ! b))"
  using assms by (simp add: mask_zeroed_def)

lemma length_mask_zeroed:
  "length (mask_zeroed x m) = min (length x) (length m)"
  "t < length x \<Longrightarrow> t < length m \<Longrightarrow> length (mask_zeroed x m ! t) = min (length (x ! t)) (length (m ! t))"
  by (simp_all add: mask_zeroed_def)

lemma Quantize_forward_shapes:
  assumes "Quantize_forward env self input input_mask
             = (Inr (quantize_out, diff, embed_ind, stats), self')"
    and "length input_mask = length input"
    and "\<forall>t < length input. length (input_mask ! t) = length (input ! t)"
  shows "quantize_out = map2 (map2 (map2 (\<lambda>x q. x + (q - x)))) (mask_zeroed input input_mask)
                          (mask_zeroed (code_lookup self embed_ind) input_mask)"
    and "diff = mean_all (squared_difference (mask_zeroed (code_lookup self embed_ind) input_mask)
                                            (mask_zeroed input input_mask))"
    and "length embed_ind = length input"
    and "\<forall>t < length input. length (embed_ind ! t) = length (input ! t)"
    and "\<forall>t < length input. \<forall>b < length (input ! t). length (input ! t ! b) = dim self"
    and "length (embed self) = dim self"
    and "is_tensor3 input"
proof -
  from Quantize_forward_Inr [OF assms(1)] obtain flatten embed_onehot quantize where
    asg: "Quantize_assign env self input = Inr (flatten, embed_onehot, embed_ind, quantize)"
    and st: "straight_through input quantize input_mask = Inr (quantize_out, diff)"
    by blast
  note parts = Quantize_assign_parts [OF asg] and chr = Quantize_assign_Inr [OF asg]
  show "is_tensor3 input" by (rule parts(1))
  show "length (embed self) = dim self" using parts(2) by (simp add: buffers_ok_def)
  have q: "quantize = code_lookup self embed_ind" by (simp add: chr(6) code_lookup_def)
  show le: "length embed_ind = length input" by (simp add: chr(3))
  show lr: "\<forall>t < length input. length (embed_ind ! t) = length (input ! t)" by (simp add: chr(3))
  show "\<forall>t < length input. \<forall>b < length (input ! t). length (input ! t ! b) = dim self"
    using chr(2) nth_concat_mem by blast
  have "length quantize = length input" "\<forall>t < length input. length (quantize ! t) = length (input ! t)"
    using le lr by (simp_all add: chr(6))
  from straight_through_same_shape [OF assms(2,3) this] st
  show "quantize_out = map2 (map2 (map2 (\<lambda>x q. x + (q - x)))) (mask_zeroed input input_mask)
                          (mask_zeroed (code_lookup self embed_ind) input_mask)"
    and "diff = mean_all (squared_difference (mask_zeroed (code_lookup self embed_ind) input_mask)
                                            (mask_zeroed input input_mask))"
    by (simp_all add: q)
qed


section \<open>Quantize.forward: the loss, and examples\<close>



lemma example_forward_eval:
  "Quantize_forward example_env (example_quantize\<lparr>training := False\<rparr>)
       [[[0, 0], [1, 1]], [[3, -1], [5, 5]]] [[True, True], [True, False]]
     = (Inr ([[[0, 0], [1, 1]], [[4, -2], [0, 0]]], Some (1/4), [[0, 1], [2, 1]],
          [(''effective latents per batch'', Some 3)]),
        example_quantize\<lparr>training := False\<rparr>)"
  by code_simp


lemma numel_uniform:
  assumes "\<forall>t < length X. length (X ! t) = B \<and> (\<forall>b < B. length (X ! t ! b) = C)"
  shows "length (concat (concat X)) = length X * B * C"
proof -
  have rows: "\<forall>row \<in> set X. length row = B"
    using assms by (auto simp: in_set_conv_nth)
  have "\<forall>v \<in> set (concat X). length v = C"
  proof
    fix v assume "v \<in> set (concat X)"
    then obtain row where "row \<in> set X" and "v \<in> set row" by auto
    then obtain t b where "t < length X" "row = X ! t" "b < length row" "v = row ! b"
      by (auto simp: in_set_conv_nth)
    with assms show "length v = C" by auto
  qed
  from length_concat_uniform [OF this] length_concat_uniform [OF rows]
  show ?thesis by simp
qed

lemma set_map2_sub: "z \<in> set (map2 f xs ys) \<Longrightarrow> \<exists>x \<in> set xs. \<exists>y \<in> set ys. z = f x y"
  by (auto dest: set_zip_leftD set_zip_rightD)

lemma squared_difference_nonneg:
  assumes "e \<in> set (squared_difference a b)"
  shows "0 \<le> e"
proof -
  define X where "X = map2 (map2 (map2 (\<lambda>q x :: real. (q - x)\<^sup>2))) a b"
  from assms have "e \<in> \<Union> (set ` set (concat X))"
    by (simp only: squared_difference_def X_def set_concat)
  then obtain v where "v \<in> set (concat X)" and e: "e \<in> set v" by blast
  then have "v \<in> \<Union> (set ` set X)" by (simp only: set_concat)
  then obtain row where row: "row \<in> set X" and v: "v \<in> set row" by blast
  from row have "\<exists>q \<in> set a. \<exists>i \<in> set b. row = map2 (map2 (\<lambda>q x. (q - x)\<^sup>2)) q i"
    unfolding X_def by (rule set_map2_sub)
  then obtain q i where "row = map2 (map2 (\<lambda>q x. (q - x)\<^sup>2)) q i" by blast
  with v have "\<exists>u \<in> set q. \<exists>w \<in> set i. v = map2 (\<lambda>q x. (q - x)\<^sup>2) u w"
    by (intro set_map2_sub) simp
  then obtain u w where "v = map2 (\<lambda>q x. (q - x)\<^sup>2) u w" by blast
  with e have "\<exists>c \<in> set u. \<exists>d \<in> set w. e = (c - d)\<^sup>2"
    by (intro set_map2_sub) simp
  then show ?thesis by auto
qed

lemma squared_difference_same:
  assumes "e \<in> set (squared_difference a a)"
  shows "e = 0"
  using assms by (auto simp: squared_difference_def zip_same_conv_map)

lemma sum_list_all_zero: "\<forall>e \<in> set xs. e = (0::real) \<Longrightarrow> sum_list xs = 0"
  by (induction xs) simp_all

text \<open>
  C5. When \<open>forward\<close> returns on an input T x batch x C with a mask T x batch, the
  scalar \<open>diff\<close> is the mean, over all T x batch x dim elements, of the squared
  difference between the mask-zeroed code lookup and the mask-zeroed input (no
  finite number when there is no element); it is not negative, and it is 0 when
  every unmasked input vector equals its assigned codebook vector.
\<close>

theorem Quantize_forward_diff:
  assumes "Quantize_forward env self input input_mask
             = (Inr (quantize_out, diff, embed_ind, stats), self')"
    and "length input_mask = length input"
    and "\<forall>t < length input. length (input_mask ! t) = length (input ! t)"
  shows "let els = squared_difference (mask_zeroed (code_lookup self embed_ind) input_mask)
                                      (mask_zeroed input input_mask)
         in length els = length input * length (hd input) * dim self
          \<and> diff = (if els = [] then None else Some (sum_list els / real (length els)))
          \<and> (\<forall>d. diff = Some d \<longrightarrow> 0 \<le> d)
          \<and> ((\<forall>t < length input. \<forall>b < length (input ! t).
                  input_mask ! t ! b \<longrightarrow> input ! t ! b = column (embed self) (embed_ind ! t ! b))
               \<longrightarrow> els \<noteq> [] \<longrightarrow> diff = Some 0)"
proof -
  note sh = Quantize_forward_shapes [OF assms]
  define Q where "Q = code_lookup self embed_ind"
  define Qz where "Qz = mask_zeroed Q input_mask"
  define Iz where "Iz = mask_zeroed input input_mask"
  define els where "els = squared_difference Qz Iz"
  define B where "B = length (hd input)"
  have rowsB: "length (input ! t) = B" if "t < length input" for t
  proof -
    have "is_tensor2 input" using sh(7) by (simp add: is_tensor3_def)
    with that show ?thesis by (simp add: is_tensor2_def B_def)
  qed
  have lQ: "length Q = length input" using sh(3) by (simp add: Q_def code_lookup_def)
  have lQt: "length (Q ! t) = B" if "t < length input" for t
    using that sh(3,4) rowsB by (simp add: Q_def code_lookup_def)
  have Qtb: "Q ! t ! b = column (embed self) (embed_ind ! t ! b)"
    if "t < length input" "b < B" for t b
    using that sh(3,4) rowsB by (simp add: Q_def code_lookup_def)
  have lmt: "length (input_mask ! t) = B" if "t < length input" for t
    using that assms(3) rowsB by simp
  have lIz: "length Iz = length input" and lQz: "length Qz = length input"
    using assms(2) lQ by (simp_all add: Iz_def Qz_def length_mask_zeroed)
  have lIzt: "length (Iz ! t) = B" and lQzt: "length (Qz ! t) = B" if "t < length input" for t
    using that assms(2) lQ rowsB lQt lmt by (simp_all add: Iz_def Qz_def length_mask_zeroed)
  have Iztb: "Iz ! t ! b = (if input_mask ! t ! b then input ! t ! b else map (\<lambda>_. 0) (input ! t ! b))"
    if "t < length input" "b < B" for t b
    unfolding Iz_def using that assms(2) rowsB lmt by (intro mask_zeroed_nth) simp_all
  have Qztb: "Qz ! t ! b = (if input_mask ! t ! b then Q ! t ! b else map (\<lambda>_. 0) (Q ! t ! b))"
    if "t < length input" "b < B" for t b
    unfolding Qz_def using that assms(2) lQ lQt lmt by (intro mask_zeroed_nth) simp_all
  have lin: "length (input ! t ! b) = dim self" if "t < length input" "b < B" for t b
    using that sh(5) rowsB by simp
  have lcol: "length (Q ! t ! b) = dim self" if "t < length input" "b < B" for t b
    using that by (simp add: Qtb column_def sh(6))
  define X where "X = map2 (map2 (map2 (\<lambda>q x. (q - x)\<^sup>2))) Qz Iz"
  have lX: "length X = length input" by (simp add: X_def lIz lQz)
  have "\<forall>t < length X. length (X ! t) = B \<and> (\<forall>b < B. length (X ! t ! b) = dim self)"
  proof (intro allI impI conjI)
    fix t assume "t < length X"
    then have t: "t < length input" using lX by simp
    then have Xt: "X ! t = map2 (map2 (\<lambda>q x. (q - x)\<^sup>2)) (Qz ! t) (Iz ! t)"
      by (simp add: X_def lIz lQz)
    show "length (X ! t) = B" by (simp add: Xt lIzt [OF t] lQzt [OF t])
    fix b assume b: "b < B"
    then have "X ! t ! b = map2 (\<lambda>q x. (q - x)\<^sup>2) (Qz ! t ! b) (Iz ! t ! b)"
      by (simp add: Xt lIzt [OF t] lQzt [OF t])
    then show "length (X ! t ! b) = dim self"
      using lin [OF t b] lcol [OF t b] by (simp add: Iztb [OF t b] Qztb [OF t b])
  qed
  from numel_uniform [OF this] have n: "length els = length input * B * dim self"
    by (simp add: els_def squared_difference_def X_def [symmetric] lX)
  have d: "diff = (if els = [] then None else Some (sum_list els / real (length els)))"
    using sh(2) by (simp add: mean_all_def els_def Qz_def Iz_def Q_def)
  have nonneg: "0 \<le> sum_list els"
    by (rule sum_list_nonneg) (simp add: els_def squared_difference_nonneg)
  have pos: "\<forall>d'. diff = Some d' \<longrightarrow> 0 \<le> d'"
    using nonneg by (auto simp: d split: if_splits)
  have zero: "diff = Some 0"
    if m: "\<forall>t < length input. \<forall>b < length (input ! t).
            input_mask ! t ! b \<longrightarrow> input ! t ! b = column (embed self) (embed_ind ! t ! b)"
      and ne: "els \<noteq> []"
  proof -
    have "Qz = Iz"
    proof (rule nth_equalityI)
      show "length Qz = length Iz" by (simp add: lIz lQz)
    next
      fix t assume "t < length Qz"
      then have t: "t < length input" by (simp add: lQz)
      show "Qz ! t = Iz ! t"
      proof (rule nth_equalityI)
        show "length (Qz ! t) = length (Iz ! t)" by (simp add: lIzt [OF t] lQzt [OF t])
      next
        fix b assume "b < length (Qz ! t)"
        then have b: "b < B" by (simp add: lQzt [OF t])
        then have b': "b < length (input ! t)" using rowsB [OF t] by simp
        show "Qz ! t ! b = Iz ! t ! b"
        proof (cases "input_mask ! t ! b")
          case True
          with m t b' have "input ! t ! b = Q ! t ! b" by (simp add: Qtb [OF t b])
          with True show ?thesis by (simp add: Iztb [OF t b] Qztb [OF t b])
        next
          case False
          then show ?thesis
            using lin [OF t b] lcol [OF t b]
            by (simp add: Iztb [OF t b] Qztb [OF t b] map_replicate_const)
        qed
      qed
    qed
    then have "\<forall>e \<in> set els. e = 0"
      by (auto simp: els_def dest: squared_difference_same)
    then have "sum_list els = 0" by (rule sum_list_all_zero)
    with ne show ?thesis by (simp add: d)
  qed
  from n d pos zero show ?thesis
    unfolding Let_def els_def Qz_def Iz_def Q_def B_def by blast
qed


lemma example_quantize_fields:
  "dim example_quantize = 2" "n_embed example_quantize = 3"
  "embed example_quantize = [[0, 1, 4], [0, 1, -2]]" "training example_quantize"
  by (simp_all add: example_quantize_def Quantize_init_def)




theorem Quantize_forward_eval_frame_witness:
  "\<not> training (example_quantize\<lparr>training := False\<rparr>)
   \<and> embed (snd (Quantize_forward example_env (example_quantize\<lparr>training := False\<rparr>)
       [[[0, 0], [1, 1]], [[3, -1], [5, 5]]] [[True, True], [True, False]])) = [[0, 1, 4], [0, 1, -2]]
   \<and> fst (Quantize_forward example_env (example_quantize\<lparr>training := False\<rparr>)
       [[[0, 0], [1, 1]], [[3, -1], [5, 5]]] [[True, True], [True, False]])
     = Inr ([[[0, 0], [1, 1]], [[4, -2], [0, 0]]], Some (1/4), [[0, 1], [2, 1]],
          [(''effective latents per batch'', Some 3)])"
proof -
  have h: "\<not> training (example_quantize\<lparr>training := False\<rparr>)" by simp
  from Quantize_forward_eval_frame [OF h, of example_env
      "[[[0, 0], [1, 1]], [[3, -1], [5, 5]]]" "[[True, True], [True, False]]"]
  have "embed (snd (Quantize_forward example_env (example_quantize\<lparr>training := False\<rparr>)
       [[[0, 0], [1, 1]], [[3, -1], [5, 5]]] [[True, True], [True, False]]))
     = embed (example_quantize\<lparr>training := False\<rparr>)"
    by (rule conjunct1)
  also have "\<dots> = [[0, 1, 4], [0, 1, -2]]"
    by (simp add: example_quantize_fields)
  finally show ?thesis using h example_forward_eval by simp
qed

lemma example_forward_match:
  "Quantize_forward example_env (example_quantize\<lparr>training := False\<rparr>)
       [[[0, 0], [1, 1]], [[4, -2], [5, 5]]] [[True, True], [True, False]]
     = (Inr ([[[0, 0], [1, 1]], [[4, -2], [0, 0]]], Some 0, [[0, 1], [2, 1]],
          [(''effective latents per batch'', Some 3)]),
        example_quantize\<lparr>training := False\<rparr>)"
  by code_simp

theorem Quantize_forward_diff_witness:
  "fst (Quantize_forward example_env (example_quantize\<lparr>training := False\<rparr>)
       [[[0, 0], [1, 1]], [[4, -2], [5, 5]]] [[True, True], [True, False]])
     = Inr ([[[0, 0], [1, 1]], [[4, -2], [0, 0]]], Some 0, [[0, 1], [2, 1]],
          [(''effective latents per batch'', Some 3)])
   \<and> length (squared_difference
         (mask_zeroed (code_lookup (example_quantize\<lparr>training := False\<rparr>) [[0, 1], [2, 1]])
            [[True, True], [True, False]])
         (mask_zeroed [[[0, 0], [1, 1]], [[4, -2], [5, 5]]] [[True, True], [True, False]])) = 8"
proof -
  have s1: "length [[True, True], [True, False]] = length [[[0, 0], [1, 1]], [[4, -2], [5, 5 :: real]]]"
    by simp
  have s2: "\<forall>t < length [[[0, 0], [1, 1]], [[4, -2], [5, 5 :: real]]].
      length ([[True, True], [True, False]] ! t) = length ([[[0, 0], [1, 1]], [[4, -2], [5, 5 :: real]]] ! t)"
    by (simp add: less_Suc_eq)
  define els where "els = squared_difference
         (mask_zeroed (code_lookup (example_quantize\<lparr>training := False\<rparr>) [[0, 1], [2, 1]])
            [[True, True], [True, False]])
         (mask_zeroed [[[0, 0], [1, 1]], [[4, -2], [5, 5]]] [[True, True], [True, False]])"
  from Quantize_forward_diff [OF example_forward_match s1 s2]
  have n: "length els = length [[[0, 0], [1, 1]], [[4, -2], [5, 5 :: real]]]
             * length (hd [[[0, 0], [1, 1]], [[4, -2], [5, 5 :: real]]])
             * dim (example_quantize\<lparr>training := False\<rparr>)"
    unfolding Let_def els_def by blast
  from n have n8: "length els = 8" by (simp add: example_quantize_fields)
  then show ?thesis using example_forward_match by (simp add: els_def)
qed

section \<open>Quantize.forward: the update of the codebook\<close>


lemma masked_rows_Nil [simp]: "masked_rows [] ms = []" "masked_rows xs [] = []"
  by (simp_all add: masked_rows_def)


lemma column_Nil [simp]: "column [] k = []"
  by (simp add: column_def)

















text \<open>
  The all-reduce is behind two gates, \<^verbatim>\<open>self.training\<close> and
  \<^verbatim>\<open>torch.cuda.device_count() > 1\<close>: unless both hold, neither the result of
  \<open>forward\<close> nor the module after the call depends on the process group or on what
  the other processes would send.
\<close>

lemma ema_stats_single_device:
  "\<not> 1 < cuda_device_count env \<Longrightarrow> \<not> 1 < cuda_device_count env' \<Longrightarrow>
     ema_stats env' self flatten embed_onehot mask_flat
       = ema_stats env self flatten embed_onehot mask_flat"
  by (simp add: ema_stats_def)

lemma Quantize_train_gate:
  assumes "\<not> (training self \<and> 1 < cuda_device_count env)"
    and "\<not> (training self \<and> 1 < cuda_device_count env')"
  shows "Quantize_train env' self flatten embed_onehot mask_flat
       = Quantize_train env self flatten embed_onehot mask_flat"
proof (cases "training self")
  case True
  with assms have "\<not> 1 < cuda_device_count env" "\<not> 1 < cuda_device_count env'" by simp_all
  from ema_stats_single_device [OF this] show ?thesis by (simp add: Quantize_train_def)
next
  case False
  then show ?thesis by (simp add: Quantize_train_def)
qed

lemma Quantize_assign_env:
  "max_index env' = max_index env \<Longrightarrow> Quantize_assign env' self input = Quantize_assign env self input"
  unfolding Quantize_assign_def by (simp only:)

lemma Quantize_forward_all_reduce_gate:
  assumes "max_index env' = max_index env"
    and "\<not> (training self \<and> 1 < cuda_device_count env)"
    and "\<not> (training self \<and> 1 < cuda_device_count env')"
  shows "Quantize_forward env' self input input_mask = Quantize_forward env self input input_mask"
  unfolding Quantize_forward_def Quantize_assign_env [OF assms(1)] Quantize_train_gate [OF assms(2,3)] ..

section \<open>VQVAE.extract_codes\<close>














subsection \<open>The forward pass returns on tensors of the documented shapes\<close>

text \<open>
  The theorems on \<^const>\<open>Quantize_forward\<close> are stated for calls that return. The two lemmas
  below show that these are all the calls of the documented domain: with buffers as
  \<^verbatim>\<open>__init__\<close> registers them, an input of shape \<^verbatim>\<open>T x batch x dim\<close> and a mask of shape
  \<^verbatim>\<open>T x batch\<close>, the assignment of lines 86-97 raises nothing, and in evaluation mode the whole
  call returns and leaves the module as it was.
\<close>

lemma Quantize_assign_returns:
  assumes mi: "max_index_ok (max_index env)" and bo: "buffers_ok self"
    and d: "0 < dim self" and K: "0 < n_embed self"
    and t3: "is_tensor3 input" and vecs: "\<forall>v \<in> set (concat input). length v = dim self"
  shows "Quantize_assign env self input =
     Inr (concat input,
          map (\<lambda>v. map (\<lambda>k. of_bool (k = assigned_index env self v)) [0..<n_embed self]) (concat input),
          map (map (assigned_index env self)) input,
          map (map (column (embed self))) (map (map (assigned_index env self)) input))"
proof -
  define B where "B = (if input = [] then 0 else length (hd input))"
  have rows: "\<forall>row \<in> set input. length row = B"
  proof (cases "input = []")
    case True
    then show ?thesis by simp
  next
    case False
    then have "B = length (hd input)" by (simp add: B_def)
    moreover have "is_tensor2 input" using t3 by (simp add: is_tensor3_def)
    ultimately show ?thesis by (simp add: is_tensor2_def)
  qed
  have "length (concat (concat input)) = length (concat input) * dim self"
    using vecs by (rule length_concat_uniform)
  then have rs: "reshape_rows (dim self) (concat (concat input)) = Inr (concat input)"
    using d vecs by (simp add: reshape_rows_def chunks_concat)
  have emb: "length (embed self) = dim self" using bo by (simp add: buffers_ok_def)
  have lt: "assigned_index env self v < n_embed self" if "v \<in> set (concat input)" for v
  proof -
    have "length v = length (embed self)" using vecs [rule_format, OF that] emb by simp
    from assigned_index_nearest(1) [OF mi K this] show ?thesis .
  qed
  have ix: "map (\<lambda>row. max_index env (map uminus row))
               (dist_matrix (concat input) (embed self) (n_embed self))
          = map (assigned_index env self) (concat input)"
    by (simp add: dist_matrix_def assigned_index_def)
  have oh: "F_one_hot (map (assigned_index env self) (concat input)) (n_embed self)
      = Inr (map (\<lambda>v. map (\<lambda>k. of_bool (k = assigned_index env self v)) [0..<n_embed self])
               (concat input))"
  proof -
    have "\<not> (\<exists>i \<in> set (map (assigned_index env self) (concat input)). n_embed self \<le> i)"
      using lt by (auto simp: not_le)
    then show ?thesis unfolding F_one_hot_def by (simp add: o_def)
  qed
  have vw: "view_2d (length input) B (map (assigned_index env self) (concat input))
      = Inr (map (map (assigned_index env self)) input)"
    using rows by (rule view_2d_map_concat)
  have ec: "embed_code self (map (map (assigned_index env self)) input)
      = Inr (map (map (column (embed self))) (map (map (assigned_index env self)) input))"
  proof -
    have "\<not> (\<exists>row \<in> set (map (map (assigned_index env self)) input).
               \<exists>i \<in> set row. n_embed self \<le> i)"
    proof
      assume "\<exists>row \<in> set (map (map (assigned_index env self)) input).
               \<exists>i \<in> set row. n_embed self \<le> i"
      then obtain r v where "r \<in> set input" "v \<in> set r"
        "n_embed self \<le> assigned_index env self v" by auto
      moreover from this(1,2) have "v \<in> set (concat input)" by auto
      ultimately show False using lt by (simp add: not_le [symmetric])
    qed
    then show ?thesis unfolding embed_code_def by (simp only: if_False)
  qed
  show ?thesis
    unfolding Quantize_assign_def Let_def ix B_def [symmetric]
    using t3 bo K by (simp add: rs ebind_def ix oh vw ec)
qed

lemma Quantize_forward_eval_returns:
  assumes "max_index_ok (max_index env)" and "buffers_ok self"
    and "0 < dim self" and "0 < n_embed self" and "\<not> training self"
    and "is_tensor3 input" and "\<forall>v \<in> set (concat input). length v = dim self"
    and "length input_mask = length input"
    and "\<forall>t < length input. length (input_mask ! t) = length (input ! t)"
  shows "\<exists>out. Quantize_forward env self input input_mask = (Inr out, self)"
proof -
  note asg = Quantize_assign_returns [OF assms(1,2,3,4,6,7)]
  define B where "B = length (hd input)"
  have "is_tensor2 input" using assms(6) by (simp add: is_tensor3_def)
  then have rowsX: "\<forall>row \<in> set input. length row = B" by (simp add: is_tensor2_def B_def)
  have rowsM: "\<forall>row \<in> set input_mask. length row = B"
  proof
    fix row assume "row \<in> set input_mask"
    then obtain t where "t < length input_mask" "row = input_mask ! t"
      by (auto simp: in_set_conv_nth)
    with assms(8,9) rowsX show "length row = B" by simp
  qed
  have t2: "is_tensor2 input_mask"
  proof (cases "input_mask = []")
    case True
    then show ?thesis by (simp add: is_tensor2_def)
  next
    case False
    then have "length (hd input_mask) = B" using rowsM by simp
    with rowsM show ?thesis by (simp add: is_tensor2_def)
  qed
  have len: "length (concat input_mask)
      = length (map (\<lambda>v. map (\<lambda>k. of_bool (k = assigned_index env self v)) [0..<n_embed self])
                  (concat input) :: mat)"
    using length_concat_uniform [OF rowsX] length_concat_uniform [OF rowsM] assms(8) by simp
  have tr: "Quantize_train env self (concat input)
      (map (\<lambda>v. map (\<lambda>k. of_bool (k = assigned_index env self v)) [0..<n_embed self]) (concat input))
      (concat input_mask) = (Inr [], self)"
    using assms(5) by (rule Quantize_train_eval)
  define Q where "Q = map (map (column (embed self))) (map (map (assigned_index env self)) input)"
  have "length Q = length input" "\<forall>t < length input. length (Q ! t) = length (input ! t)"
    by (simp_all add: Q_def)
  from straight_through_same_shape [OF assms(8,9) this]
  obtain p where st: "straight_through input Q input_mask = Inr p" by blast
  obtain a b where p: "p = (a, b)" by (cases p)
  from Quantize_forward_unfold [OF t2 asg len tr] st p show ?thesis
    by (simp add: ebind_def Q_def)
qed

end
